theory Spec2Isabelle
  imports Main "HOL-Library.Word"
begin

section \<open>Platform functions of the transfer codec\<close>

text \<open>
  Both ends encode file content with the platform's base64 functions: \<open>btoa\<close> and
  \<open>atob\<close> in the browser, \<open>Buffer.from(text, 'base64')\<close> and
  \<open>buffer.toString('base64')\<close> in Node.  They are not code of the repository; they are
  written out here after RFC 4648 and the documented behaviour of the two platforms, so
  that the composition the repository builds from them can be evaluated.  A byte is an
  \<open>8 word\<close>, a JavaScript string a list of 16-bit code units, a base64 text a \<open>string\<close>.
\<close>

definition base64_alphabet :: string where
  "base64_alphabet = ''ABCDEFGHIJKLMNOPQRSTUVWXYZabcdefghijklmnopqrstuvwxyz0123456789+/''"

definition sextet_char :: "nat \<Rightarrow> char" where
  "sextet_char n = base64_alphabet ! n"

fun index_of :: "'a \<Rightarrow> 'a list \<Rightarrow> nat option" where
  "index_of x [] = None"
| "index_of x (y # ys) = (if x = y then Some 0 else map_option Suc (index_of x ys))"

definition char_sextet :: "char \<Rightarrow> nat option" where
  "char_sextet c = index_of c base64_alphabet"

fun base64_encode :: "8 word list \<Rightarrow> string" where
  "base64_encode (a # b # c # rest) =
     [sextet_char (unat a div 4),
      sextet_char ((unat a mod 4) * 16 + unat b div 16),
      sextet_char ((unat b mod 16) * 4 + unat c div 64),
      sextet_char (unat c mod 64)] @ base64_encode rest"
| "base64_encode [a, b] =
     [sextet_char (unat a div 4),
      sextet_char ((unat a mod 4) * 16 + unat b div 16),
      sextet_char ((unat b mod 16) * 4),
      CHR ''='']"
| "base64_encode [a] =
     [sextet_char (unat a div 4), sextet_char ((unat a mod 4) * 16), CHR ''='', CHR ''='']"
| "base64_encode [] = []"

text \<open>Four sextets give three bytes; a tail of three gives two, a tail of two gives one.\<close>

fun decode_sextets :: "nat list \<Rightarrow> 8 word list" where
  "decode_sextets (p # q # r # s # rest) =
     [of_nat (p * 4 + q div 16), of_nat ((q mod 16) * 16 + r div 4), of_nat ((r mod 4) * 64 + s)]
       @ decode_sextets rest"
| "decode_sextets [p, q, r] = [of_nat (p * 4 + q div 16), of_nat ((q mod 16) * 16 + r div 4)]"
| "decode_sextets [p, q] = [of_nat (p * 4 + q div 16)]"
| "decode_sextets [p] = []"
| "decode_sextets [] = []"

text \<open>
  \<open>btoa\<close> throws InvalidCharacterError on a code unit above 255 (the value \<open>None\<close>).
\<close>

definition btoa :: "16 word list \<Rightarrow> string option" where
  "btoa text =
     (if list_ex (\<lambda>u. 255 < unat u) text then None
      else Some (base64_encode (map ucast text)))"

definition ascii_whitespace :: "char list" where
  "ascii_whitespace = [CHR 0x09, CHR 0x0A, CHR 0x0C, CHR 0x0D, CHR 0x20]"

definition strip_padding :: "string \<Rightarrow> string" where
  "strip_padding text =
     (if length text mod 4 = 0 then
        (case rev text of
           c # d # r \<Rightarrow>
             if c = CHR ''='' \<and> d = CHR ''='' then rev r
             else if c = CHR ''='' then rev (d # r) else text
         | _ \<Rightarrow> text)
      else text)"

text \<open>
  \<open>atob\<close> is the forgiving-base64 decoder: ASCII whitespace is removed, then one or
  two padding characters when the length is a multiple of four; a length of 1 modulo 4
  or a character outside the alphabet throws InvalidCharacterError (\<open>None\<close>).
\<close>

definition atob :: "string \<Rightarrow> 16 word list option" where
  "atob text =
     (let d = strip_padding (filter (\<lambda>c. c \<notin> set ascii_whitespace) text) in
      if length d mod 4 = 1 then None
      else if list_ex (\<lambda>c. char_sextet c = None) d then None
      else Some (map ucast (decode_sextets (List.map_filter char_sextet d))))"

text \<open>
  Node's decoder never throws on a string: it skips what is not a base64 character,
  accepts the URL-safe \<open>-\<close> and \<open>_\<close>, and stops at the first \<open>=\<close>.
\<close>

definition unbase64 :: "char \<Rightarrow> nat option" where
  "unbase64 c =
     (case char_sextet c of
        Some n \<Rightarrow> Some n
      | None \<Rightarrow> if c = CHR ''-'' then Some 62 else if c = CHR ''_'' then Some 63 else None)"

definition buffer_from_base64 :: "string \<Rightarrow> 8 word list" where
  "buffer_from_base64 text =
     decode_sextets (List.map_filter unbase64 (takeWhile (\<lambda>c. c \<noteq> CHR ''='') text))"

definition buffer_to_base64 :: "8 word list \<Rightarrow> string" where
  "buffer_to_base64 bytes = base64_encode bytes"

text \<open>
  \<open>String.fromCharCode.apply(null, new Uint8Array(content))\<close> passes every byte as an
  argument of its own and gives one code unit per byte.  An engine takes only so many
  arguments in one call and throws a RangeError beyond that; the number belongs to the
  engine and its stack, not to this code, and is the parameter \<open>maxArguments\<close>.
  \<open>None\<close> is the RangeError.
\<close>

definition fromCharCode_apply :: "nat \<Rightarrow> 8 word list \<Rightarrow> 16 word list option" where
  "fromCharCode_apply maxArguments bytes =
     (if maxArguments < length bytes then None else Some (map ucast bytes))"

section \<open>The browser client: class SFTPClient (src/lib/sftpClient.js)\<close>

text \<open>
  The client is a mutable object driven by method calls, timers and WebSocket events.
  It is modelled by explicit state passing over the record \<open>client\<close>.  Closures
  are first-order data: a request handler is named by the request (promise) it settles,
  and the wrapper that \<open>once\<close> creates carries an identity of its own, taken from a
  counter of allocated objects, so that \<open>cb !== callback\<close> is equality of the model.
\<close>

datatype js_error = TypeError | RangeError | InvalidCharacterError | WsErrorEvent | Error string

text \<open>A parsed server message: \<open>type\<close> and the fields the handlers read.\<close>

record wire_message =
  msg_type :: "string option"
  msg_connectionId :: "string option"
  msg_error :: "string option"
  msg_files :: "string option"
  msg_content :: "string option"
  msg_size :: "nat option"
  msg_path :: "string option"
  msg_message :: "string option"

text \<open>What \<open>JSON.parse(data)\<close> makes of an incoming frame.\<close>

datatype frame = Malformed | JsonNull | Json wire_message

text \<open>The object a client method sends with \<open>_sendMessage\<close>.\<close>

record command =
  cmd_type :: "string option"
  cmd_host :: "string option"
  cmd_port :: "nat option"
  cmd_username :: "string option"
  cmd_password :: "string option"
  cmd_privateKey :: "string option"
  cmd_path :: "string option"
  cmd_remotePath :: "string option"
  cmd_content :: "string option"
  cmd_isDirectory :: "bool option"

definition empty_command :: command where
  "empty_command = \<lparr>cmd_type = None, cmd_host = None, cmd_port = None, cmd_username = None,
     cmd_password = None, cmd_privateKey = None, cmd_path = None, cmd_remotePath = None,
     cmd_content = None, cmd_isDirectory = None\<rparr>"

definition empty_message :: wire_message where
  "empty_message = \<lparr>msg_type = None, msg_connectionId = None, msg_error = None,
     msg_files = None, msg_content = None, msg_size = None, msg_path = None,
     msg_message = None\<rparr>"

text \<open>
  The functions registered as listeners.  The number is the request whose promise and
  timeout the closure refers to; \<open>OnError\<close> also carries the default text of its
  \<open>data.error || '...'\<close>.  \<open>Subscriber\<close> is a callback of the application
  (ConnectionContext registers one for \<open>disconnect\<close>); it does not touch the client.
\<close>

datatype handler =
    OnConnectSuccess nat
  | OnConnectError nat
  | OnFileList nat
  | OnFileContent nat
  | OnUploadSuccess nat
  | OnDeleteSuccess nat
  | OnMkdirSuccess nat
  | OnError nat string
  | OnDisconnect nat
  | Subscriber nat

datatype callback = Plain handler | OnceCallback nat string handler

datatype js_value =
    VSuccess
  | VFiles "string option"
  | VContent "16 word list" "nat option" "string option"
  | VData wire_message
  | VUndefined

datatype outcome = Resolved js_value | Rejected js_error

record client =
  wsOpen :: bool
  isConnected :: bool
  connectionId :: "string option"
  eventListeners :: "string \<rightharpoonup> callback list"
  timers :: "nat \<rightharpoonup> string"
  nextId :: nat
  outbox :: "command list"
  settled :: "(nat \<times> outcome) list"
  invoked :: "callback list"

text \<open>The constructor: eight keys, each with an empty array.\<close>

definition constructor_keys :: "string list" where
  "constructor_keys = [''connect'', ''disconnect'', ''error'', ''fileList'', ''fileContent'',
     ''uploadSuccess'', ''deleteSuccess'', ''mkdirSuccess'']"

definition constructor_listeners :: "string \<rightharpoonup> callback list" where
  "constructor_listeners event = (if event \<in> set constructor_keys then Some [] else None)"

definition constructor :: client where
  "constructor = \<lparr>wsOpen = False, isConnected = False, connectionId = None,
     eventListeners = constructor_listeners, timers = Map.empty, nextId = 0,
     outbox = [], settled = [], invoked = []\<rparr>"

text \<open>
  \<open>this.eventListeners[event]\<close> on an object literal: an own key gives its array, no
  key gives \<open>undefined\<close>, and a name that \<open>Object.prototype\<close> defines gives that
  inherited member, which is truthy and has no \<open>push\<close>, \<open>filter\<close> or \<open>forEach\<close>.
\<close>

datatype slot = Undefined | Listeners "callback list" | Inherited

definition object_prototype_names :: "string list" where
  "object_prototype_names = [''constructor'', ''__defineGetter__'', ''__defineSetter__'',
     ''hasOwnProperty'', ''__lookupGetter__'', ''__lookupSetter__'', ''isPrototypeOf'',
     ''propertyIsEnumerable'', ''toString'', ''valueOf'', ''__proto__'', ''toLocaleString'']"

definition lookup_listeners :: "client \<Rightarrow> string \<Rightarrow> slot" where
  "lookup_listeners s event =
     (case eventListeners s event of
        Some cbs \<Rightarrow> Listeners cbs
      | None \<Rightarrow> if event \<in> set object_prototype_names then Inherited else Undefined)"

text \<open>
  A method returns the state it leaves and the exception it threw, if any.
\<close>

type_synonym result = "js_error option \<times> client"

definition on :: "string \<Rightarrow> callback \<Rightarrow> client \<Rightarrow> result" where
  "on event cb s =
     (case lookup_listeners s event of
        Listeners cbs \<Rightarrow> (None, s\<lparr>eventListeners := (eventListeners s)(event \<mapsto> cbs @ [cb])\<rparr>)
      | Inherited \<Rightarrow> (Some TypeError, s)
      | Undefined \<Rightarrow> (None, s))"

definition off :: "string \<Rightarrow> callback \<Rightarrow> client \<Rightarrow> result" where
  "off event cb s =
     (case lookup_listeners s event of
        Listeners cbs \<Rightarrow>
          (None, s\<lparr>eventListeners := (eventListeners s)(event \<mapsto> filter (\<lambda>c. c \<noteq> cb) cbs)\<rparr>)
      | Inherited \<Rightarrow> (Some TypeError, s)
      | Undefined \<Rightarrow> (None, s))"

text \<open>\<open>once\<close> allocates the wrapper closure and registers it with \<open>on\<close>.\<close>

definition once :: "string \<Rightarrow> handler \<Rightarrow> client \<Rightarrow> result" where
  "once event h s =
     on event (OnceCallback (nextId s) event h) (s\<lparr>nextId := Suc (nextId s)\<rparr>)"

definition clearTimeout :: "nat \<Rightarrow> client \<Rightarrow> client" where
  "clearTimeout t s = s\<lparr>timers := (timers s)(t := None)\<rparr>"

definition setTimeout :: "nat \<Rightarrow> string \<Rightarrow> client \<Rightarrow> client" where
  "setTimeout t text s = s\<lparr>timers := (timers s)(t \<mapsto> text)\<rparr>"

definition resolve :: "nat \<Rightarrow> js_value \<Rightarrow> client \<Rightarrow> client" where
  "resolve r v s = s\<lparr>settled := settled s @ [(r, Resolved v)]\<rparr>"

definition reject :: "nat \<Rightarrow> js_error \<Rightarrow> client \<Rightarrow> client" where
  "reject r e s = s\<lparr>settled := settled s @ [(r, Rejected e)]\<rparr>"

text \<open>\<open>data.error || fallback\<close>: an absent or empty text is falsy.\<close>

definition error_or :: "wire_message \<Rightarrow> string \<Rightarrow> string" where
  "error_or d fallback =
     (case msg_error d of None \<Rightarrow> fallback | Some e \<Rightarrow> if e = [] then fallback else e)"

definition content_text :: "wire_message \<Rightarrow> string" where
  "content_text d = (case msg_content d of None \<Rightarrow> ''undefined'' | Some c \<Rightarrow> c)"

text \<open>The bodies of the handlers, in the order the methods define them.\<close>

fun call_handler :: "handler \<Rightarrow> wire_message \<Rightarrow> client \<Rightarrow> result" where
  "call_handler (OnConnectSuccess r) d s =
     (None, resolve r VSuccess
        ((clearTimeout r s)\<lparr>isConnected := True, connectionId := msg_connectionId d\<rparr>))"
| "call_handler (OnConnectError r) d s =
     (None, reject r (Error (error_or d ''Connection failed'')) (clearTimeout r s))"
| "call_handler (OnFileList r) d s =
     (None, resolve r (VFiles (msg_files d)) (clearTimeout r s))"
| "call_handler (OnFileContent r) d s =
     (case atob (content_text d) of
        None \<Rightarrow> (Some InvalidCharacterError, clearTimeout r s)
      | Some binaryContent \<Rightarrow>
          (None, resolve r (VContent binaryContent (msg_size d) (msg_path d)) (clearTimeout r s)))"
| "call_handler (OnUploadSuccess r) d s = (None, resolve r (VData d) (clearTimeout r s))"
| "call_handler (OnDeleteSuccess r) d s = (None, resolve r (VData d) (clearTimeout r s))"
| "call_handler (OnMkdirSuccess r) d s = (None, resolve r (VData d) (clearTimeout r s))"
| "call_handler (OnError r fallback) d s =
     (None, reject r (Error (error_or d fallback)) (clearTimeout r s))"
| "call_handler (OnDisconnect r) d s =
     (None, resolve r VUndefined (s\<lparr>isConnected := False, connectionId := None\<rparr>))"
| "call_handler (Subscriber k) d s = (None, s)"

text \<open>
  Calling a registered function.  The wrapper of \<open>once\<close> removes itself with \<open>off\<close>
  and then calls the function it wraps.  Every call is noted in \<open>invoked\<close>.
\<close>

definition call_callback :: "callback \<Rightarrow> wire_message \<Rightarrow> client \<Rightarrow> result" where
  "call_callback cb d s =
     (let s0 = s\<lparr>invoked := invoked s @ [cb]\<rparr> in
      case cb of
        Plain h \<Rightarrow> call_handler h d s0
      | OnceCallback w event h \<Rightarrow>
          (case off event cb s0 of
             (Some e, s1) \<Rightarrow> (Some e, s1)
           | (None, s1) \<Rightarrow> call_handler h d s1))"

text \<open>
  \<open>_emitEvent\<close>: \<open>forEach\<close> walks the array found at the start (\<open>off\<close> installs a
  filtered copy, it does not change that array); an exception of a callback is caught.
\<close>

definition emitEvent :: "string \<Rightarrow> wire_message \<Rightarrow> client \<Rightarrow> result" where
  "emitEvent event d s =
     (case lookup_listeners s event of
        Listeners cbs \<Rightarrow> (None, foldl (\<lambda>st cb. snd (call_callback cb d st)) s cbs)
      | Inherited \<Rightarrow> (Some TypeError, s)
      | Undefined \<Rightarrow> (None, s))"

text \<open>The property key \<open>message.type\<close> becomes: \<open>undefined\<close> reads the key "undefined".\<close>

definition type_key :: "wire_message \<Rightarrow> string" where
  "type_key m = (case msg_type m of None \<Rightarrow> ''undefined'' | Some t \<Rightarrow> t)"

text \<open>
  \<open>_handleMessage\<close>: a frame that does not parse, or parses to \<open>null\<close>, and an exception
  of \<open>_emitEvent\<close> all end in the \<open>catch\<close>, which only logs.
\<close>

definition handleMessage :: "frame \<Rightarrow> client \<Rightarrow> client" where
  "handleMessage f s =
     (case f of
        Malformed \<Rightarrow> s
      | JsonNull \<Rightarrow> s
      | Json m \<Rightarrow> snd (emitEvent (type_key m) m s))"

definition sendMessage :: "command \<Rightarrow> client \<Rightarrow> result" where
  "sendMessage m s =
     (if wsOpen s then (None, s\<lparr>outbox := outbox s @ [m]\<rparr>)
      else (Some (Error ''WebSocket is not connected''), s))"

text \<open>
  A promise executor runs statements in sequence; an exception ends it and rejects the
  promise.
\<close>

definition and_then :: "result \<Rightarrow> (client \<Rightarrow> result) \<Rightarrow> result" where
  "and_then res f = (case res of (None, s) \<Rightarrow> f s | (Some e, s) \<Rightarrow> (Some e, s))"

definition executor :: "nat \<Rightarrow> result \<Rightarrow> client" where
  "executor r res = (case res of (None, s) \<Rightarrow> s | (Some e, s) \<Rightarrow> reject r e s)"

definition new_promise :: "client \<Rightarrow> client" where
  "new_promise s = s\<lparr>nextId := Suc (nextId s)\<rparr>"

record connection =
  conn_host :: "string option"
  conn_port :: "nat option"
  conn_username :: "string option"
  conn_password :: "string option"
  conn_privateKey :: "string option"

definition port_or_22 :: "nat option \<Rightarrow> nat" where
  "port_or_22 p = (case p of None \<Rightarrow> 22 | Some n \<Rightarrow> if n = 0 then 22 else n)"

definition truthy_text :: "string option \<Rightarrow> string option" where
  "truthy_text t = (case t of None \<Rightarrow> None | Some k \<Rightarrow> if k = [] then None else Some k)"

definition connect_command :: "connection \<Rightarrow> command" where
  "connect_command c = empty_command\<lparr>cmd_type := Some ''connect'', cmd_host := conn_host c,
     cmd_port := Some (port_or_22 (conn_port c)), cmd_username := conn_username c,
     cmd_password := conn_password c, cmd_privateKey := truthy_text (conn_privateKey c)\<rparr>"

text \<open>
  \<open>connect\<close>, lines 66-111.  When the socket is not open the method first awaits
  \<open>connectToWebsocket\<close>; how that handshake ends is an input.  On its failure
  \<open>onerror\<close> emits \<open>error\<close> and the promise of \<open>connect\<close> rejects with the event.
\<close>

datatype handshake = WsOpens | WsFails

definition connect_request :: "nat \<Rightarrow> connection \<Rightarrow> client \<Rightarrow> client" where
  "connect_request r c s =
     executor r
       (and_then
          (and_then (once ''connect_success'' (OnConnectSuccess r)
                       (setTimeout r ''Connection timed out'' s))
             (once ''connect_error'' (OnConnectError r)))
          (sendMessage (connect_command c)))"

definition connect :: "connection \<Rightarrow> handshake \<Rightarrow> client \<Rightarrow> client" where
  "connect c hs s =
     (let r = nextId s; s0 = new_promise s in
      if wsOpen s then connect_request r c s0
      else (case hs of
              WsOpens \<Rightarrow> connect_request r c (s0\<lparr>wsOpen := True\<rparr>)
            | WsFails \<Rightarrow>
                reject r WsErrorEvent
                  (snd (emitEvent ''error''
                          (empty_message\<lparr>msg_error := Some ''WebSocket connection error''\<rparr>) s0))))"

definition not_connected :: js_error where
  "not_connected = Error ''Not connected to any SFTP server''"

definition listFiles :: "string \<Rightarrow> client \<Rightarrow> client" where
  "listFiles path s =
     (let r = nextId s; s0 = new_promise s in
      if \<not> isConnected s then reject r not_connected s0
      else executor r
        (and_then
           (and_then (once ''file_list'' (OnFileList r)
                        (setTimeout r ''List files operation timed out'' s0))
              (once ''error'' (OnError r ''Failed to list files'')))
           (sendMessage (empty_command\<lparr>cmd_type := Some ''list_files'', cmd_path := Some path\<rparr>))))"

definition downloadFile :: "string \<Rightarrow> client \<Rightarrow> client" where
  "downloadFile remotePath s =
     (let r = nextId s; s0 = new_promise s in
      if \<not> isConnected s then reject r not_connected s0
      else executor r
        (and_then
           (and_then (once ''file_content'' (OnFileContent r)
                        (setTimeout r ''Download operation timed out'' s0))
              (once ''error'' (OnError r ''Failed to download file'')))
           (sendMessage (empty_command\<lparr>cmd_type := Some ''download_file'',
              cmd_remotePath := Some remotePath\<rparr>))))"

text \<open>The argument \<open>content\<close> of \<open>uploadFile\<close>: a string, an ArrayBuffer, or anything else.\<close>

datatype upload_content = StringContent "16 word list" | ArrayBufferContent "8 word list"
  | OtherContent

text \<open>Lines 226-235: the conversion to base64, or the error of the \<open>else\<close> branch.\<close>

definition encode_content :: "nat \<Rightarrow> upload_content \<Rightarrow> js_error + string" where
  "encode_content maxArguments content =
     (case content of
        StringContent text \<Rightarrow>
          (case btoa text of None \<Rightarrow> Inl InvalidCharacterError | Some b \<Rightarrow> Inr b)
      | ArrayBufferContent bytes \<Rightarrow>
          (case fromCharCode_apply maxArguments bytes of
             None \<Rightarrow> Inl RangeError
           | Some text \<Rightarrow>
               (case btoa text of None \<Rightarrow> Inl InvalidCharacterError | Some b \<Rightarrow> Inr b))
      | OtherContent \<Rightarrow> Inl (Error ''Invalid content type''))"

text \<open>
  \<open>uploadFile\<close>; \<open>maxArguments\<close> is the engine's limit at the time of the call.
\<close>

definition uploadFile :: "nat \<Rightarrow> string \<Rightarrow> upload_content \<Rightarrow> client \<Rightarrow> client" where
  "uploadFile maxArguments remotePath content s =
     (let r = nextId s; s0 = new_promise s in
      if \<not> isConnected s then reject r not_connected s0
      else executor r
        (and_then
           (and_then (once ''upload_success'' (OnUploadSuccess r)
                        (setTimeout r ''Upload operation timed out'' s0))
              (once ''error'' (OnError r ''Failed to upload file'')))
           (\<lambda>s1. case encode_content maxArguments content of
                    Inl e \<Rightarrow> (Some e, s1)
                  | Inr base64Content \<Rightarrow>
                      sendMessage (empty_command\<lparr>cmd_type := Some ''upload_file'',
                        cmd_remotePath := Some remotePath,
                        cmd_content := Some base64Content\<rparr>) s1)))"

definition deleteFile :: "string \<Rightarrow> bool \<Rightarrow> client \<Rightarrow> client" where
  "deleteFile path isDirectory s =
     (let r = nextId s; s0 = new_promise s in
      if \<not> isConnected s then reject r not_connected s0
      else executor r
        (and_then
           (and_then (once ''delete_success'' (OnDeleteSuccess r)
                        (setTimeout r ''Delete operation timed out'' s0))
              (once ''error'' (OnError r ''Failed to delete file'')))
           (sendMessage (empty_command\<lparr>cmd_type := Some ''delete_file'', cmd_path := Some path,
              cmd_isDirectory := Some isDirectory\<rparr>))))"

definition createDirectory :: "string \<Rightarrow> client \<Rightarrow> client" where
  "createDirectory path s =
     (let r = nextId s; s0 = new_promise s in
      if \<not> isConnected s then reject r not_connected s0
      else executor r
        (and_then
           (and_then (once ''mkdir_success'' (OnMkdirSuccess r)
                        (setTimeout r ''Create directory operation timed out'' s0))
              (once ''error'' (OnError r ''Failed to create directory'')))
           (sendMessage (empty_command\<lparr>cmd_type := Some ''create_directory'',
              cmd_path := Some path\<rparr>))))"

text \<open>\<open>disconnect\<close>: resolved at once without a session; no timeout otherwise.\<close>

definition disconnect :: "client \<Rightarrow> client" where
  "disconnect s =
     (let r = nextId s; s0 = new_promise s in
      if \<not> isConnected s then resolve r VUndefined s0
      else executor r
        (and_then (once ''disconnect'' (OnDisconnect r) s0)
           (sendMessage (empty_command\<lparr>cmd_type := Some ''disconnect''\<rparr>))))"

definition close :: "client \<Rightarrow> client" where
  "close s = s\<lparr>wsOpen := False, isConnected := False, connectionId := None\<rparr>"

text \<open>The timeout \<open>t\<close> fires: its closure rejects the promise of the same request.\<close>

definition fire_timeout :: "nat \<Rightarrow> client \<Rightarrow> client" where
  "fire_timeout t s =
     (case timers s t of
        None \<Rightarrow> s
      | Some text \<Rightarrow> reject t (Error text) (s\<lparr>timers := (timers s)(t := None)\<rparr>))"

text \<open>\<open>ws.onclose\<close>.\<close>

definition ws_onclose :: "client \<Rightarrow> client" where
  "ws_onclose s =
     snd (emitEvent ''disconnect''
            (empty_message\<lparr>msg_message := Some ''WebSocket connection closed''\<rparr>)
            (s\<lparr>wsOpen := False, isConnected := False, connectionId := None\<rparr>))"

text \<open>How often \<open>resolve\<close> or \<open>reject\<close> of request \<open>r\<close> has been called.\<close>

definition fulfilments :: "nat \<Rightarrow> client \<Rightarrow> nat" where
  "fulfilments r s = length (filter (\<lambda>e. fst e = r) (settled s))"

text \<open>Everything that can happen to the client, and a run of it.\<close>

datatype request =
    Connect connection handshake
  | ListFiles string
  | DownloadFile string
  | UploadFile nat string upload_content
  | DeleteFile string bool
  | CreateDirectory string
  | Disconnect
  | Close
  | Subscribe string nat
  | Unsubscribe string nat

fun perform :: "request \<Rightarrow> client \<Rightarrow> client" where
  "perform (Connect c hs) s = connect c hs s"
| "perform (ListFiles path) s = listFiles path s"
| "perform (DownloadFile remotePath) s = downloadFile remotePath s"
| "perform (UploadFile maxArguments remotePath content) s = uploadFile maxArguments remotePath content s"
| "perform (DeleteFile path isDirectory) s = deleteFile path isDirectory s"
| "perform (CreateDirectory path) s = createDirectory path s"
| "perform Disconnect s = disconnect s"
| "perform Close s = close s"
| "perform (Subscribe event k) s = snd (on event (Plain (Subscriber k)) s)"
| "perform (Unsubscribe event k) s = snd (off event (Plain (Subscriber k)) s)"

datatype client_event = Receive frame | Timeout nat | SocketClosed | Call request

fun client_step :: "client_event \<Rightarrow> client \<Rightarrow> client" where
  "client_step (Receive f) s = handleMessage f s"
| "client_step (Timeout t) s = fire_timeout t s"
| "client_step SocketClosed s = ws_onclose s"
| "client_step (Call q) s = perform q s"

definition client_run :: "client_event list \<Rightarrow> client \<Rightarrow> client" where
  "client_run es s = foldl (\<lambda>st e. client_step e st) s es"

text \<open>The request a registered function belongs to, and the identities a callback holds.\<close>

fun handler_request :: "handler \<Rightarrow> nat option" where
  "handler_request (OnConnectSuccess r) = Some r"
| "handler_request (OnConnectError r) = Some r"
| "handler_request (OnFileList r) = Some r"
| "handler_request (OnFileContent r) = Some r"
| "handler_request (OnUploadSuccess r) = Some r"
| "handler_request (OnDeleteSuccess r) = Some r"
| "handler_request (OnMkdirSuccess r) = Some r"
| "handler_request (OnError r fallback) = Some r"
| "handler_request (OnDisconnect r) = Some r"
| "handler_request (Subscriber k) = None"

fun callback_request :: "callback \<Rightarrow> nat option" where
  "callback_request (Plain h) = handler_request h"
| "callback_request (OnceCallback w event h) = handler_request h"


section \<open>The bridge: server/server.js\<close>

text \<open>
  One handler set per accepted WebSocket.  \<open>connectionId\<close> names the channel; the
  variable \<open>sftpClient\<close> of each channel's closure and the module's map
  \<open>activeConnections\<close> are the state, together with what was sent to each channel and
  which calls went to the ssh2 library.  The library is a black box: a call is noted,
  and its events and callbacks come back as inputs.
\<close>

record ssh_config =
  cfg_host :: "string option"
  cfg_port :: nat
  cfg_username :: "string option"
  cfg_password :: "string option"
  cfg_privateKey :: "string option"

datatype remote_call =
    ClientEnd nat
  | ClientConnect nat ssh_config
  | ClientSftp nat
  | SftpReaddir nat string
  | SftpStat nat "string option"
  | SftpWrite nat "string option" "8 word list"
  | SftpRmdir nat "string option"
  | SftpUnlink nat "string option"
  | SftpMkdir nat "string option"

text \<open>An entry of \<open>activeConnections\<close>: \<open>{ client, ws }\<close> and later \<open>sftp\<close>.\<close>

record session =
  session_client :: "nat option"
  session_sftp :: "nat option"

record server =
  activeConnections :: "string \<rightharpoonup> session"
  sftpClient :: "string \<rightharpoonup> nat"
  sent :: "(string \<times> wire_message) list"
  remote :: "(string \<times> remote_call) list"
  nextClient :: nat

text \<open>What \<open>JSON.parse(message)\<close> makes of a frame from the browser.\<close>

datatype inbound = NotJson | NullJson | JsonValue command

definition sendResponse :: "string \<Rightarrow> string \<Rightarrow> wire_message \<Rightarrow> server \<Rightarrow> server" where
  "sendResponse cid kind d s = s\<lparr>sent := sent s @ [(cid, d\<lparr>msg_type := Some kind\<rparr>)]\<rparr>"

definition error_response :: "string \<Rightarrow> wire_message" where
  "error_response text = empty_message\<lparr>msg_error := Some text\<rparr>"

definition call_remote :: "string \<Rightarrow> remote_call \<Rightarrow> server \<Rightarrow> server" where
  "call_remote cid c s = s\<lparr>remote := remote s @ [(cid, c)]\<rparr>"

text \<open>\<open>connection && connection.sftp\<close> for the channel.\<close>

definition active_sftp :: "server \<Rightarrow> string \<Rightarrow> nat option" where
  "active_sftp s cid =
     (case activeConnections s cid of None \<Rightarrow> None | Some c \<Rightarrow> session_sftp c)"

definition no_connection :: "string \<Rightarrow> server \<Rightarrow> server" where
  "no_connection cid s = sendResponse cid ''error'' (error_response ''No active SFTP connection'') s"

definition config_of :: "command \<Rightarrow> ssh_config" where
  "config_of d = \<lparr>cfg_host = cmd_host d, cfg_port = port_or_22 (cmd_port d),
     cfg_username = cmd_username d, cfg_password = cmd_password d,
     cfg_privateKey = truthy_text (cmd_privateKey d)\<rparr>"

definition path_or_root :: "string option \<Rightarrow> string" where
  "path_or_root p = (case truthy_text p of None \<Rightarrow> ''/'' | Some q \<Rightarrow> q)"

text \<open>The cases of the \<open>switch\<close>, lines 52-277.\<close>

definition case_connect :: "string \<Rightarrow> command \<Rightarrow> server \<Rightarrow> server" where
  "case_connect cid d s =
     (let s1 = (case sftpClient s cid of
                  Some c \<Rightarrow> (call_remote cid (ClientEnd c) s)\<lparr>sftpClient := (sftpClient s)(cid := None)\<rparr>
                | None \<Rightarrow> s);
          c' = nextClient s1
      in call_remote cid (ClientConnect c' (config_of d))
           (s1\<lparr>sftpClient := (sftpClient s1)(cid \<mapsto> c'), nextClient := Suc c'\<rparr>))"

definition case_list_files :: "string \<Rightarrow> command \<Rightarrow> server \<Rightarrow> server" where
  "case_list_files cid d s =
     (case active_sftp s cid of
        None \<Rightarrow> no_connection cid s
      | Some h \<Rightarrow> call_remote cid (SftpReaddir h (path_or_root (cmd_path d))) s)"

definition case_download_file :: "string \<Rightarrow> command \<Rightarrow> server \<Rightarrow> server" where
  "case_download_file cid d s =
     (case active_sftp s cid of
        None \<Rightarrow> no_connection cid s
      | Some h \<Rightarrow> call_remote cid (SftpStat h (cmd_remotePath d)) s)"

text \<open>\<open>Buffer.from(content, 'base64')\<close> throws a TypeError when \<open>content\<close> is missing.\<close>

definition case_upload_file :: "string \<Rightarrow> command \<Rightarrow> server \<Rightarrow> js_error option \<times> server" where
  "case_upload_file cid d s =
     (case active_sftp s cid of
        None \<Rightarrow> (None, no_connection cid s)
      | Some h \<Rightarrow>
          (case cmd_content d of
             None \<Rightarrow> (Some TypeError, s)
           | Some content \<Rightarrow>
               (None, call_remote cid (SftpWrite h (cmd_remotePath d) (buffer_from_base64 content)) s)))"

definition case_delete_file :: "string \<Rightarrow> command \<Rightarrow> server \<Rightarrow> server" where
  "case_delete_file cid d s =
     (case active_sftp s cid of
        None \<Rightarrow> no_connection cid s
      | Some h \<Rightarrow>
          if cmd_isDirectory d = Some True then call_remote cid (SftpRmdir h (cmd_path d)) s
          else call_remote cid (SftpUnlink h (cmd_path d)) s)"

definition case_create_directory :: "string \<Rightarrow> command \<Rightarrow> server \<Rightarrow> server" where
  "case_create_directory cid d s =
     (case active_sftp s cid of
        None \<Rightarrow> no_connection cid s
      | Some h \<Rightarrow> call_remote cid (SftpMkdir h (cmd_path d)) s)"

definition case_disconnect :: "string \<Rightarrow> server \<Rightarrow> server" where
  "case_disconnect cid s =
     sendResponse cid ''disconnect'' (empty_message\<lparr>msg_message := Some ''Disconnected''\<rparr>)
       (case sftpClient s cid of
          Some c \<Rightarrow> (call_remote cid (ClientEnd c) s)\<lparr>sftpClient := (sftpClient s)(cid := None),
                       activeConnections := (activeConnections s)(cid := None)\<rparr>
        | None \<Rightarrow> s)"

definition case_default :: "string \<Rightarrow> server \<Rightarrow> server" where
  "case_default cid s = sendResponse cid ''error'' (error_response ''Unknown command'') s"

text \<open>The body of the \<open>try\<close>: the parse, then the \<open>switch\<close> on \<open>data.type\<close>.\<close>

definition try_message :: "string \<Rightarrow> inbound \<Rightarrow> server \<Rightarrow> js_error option \<times> server" where
  "try_message cid m s =
     (case m of
        NotJson \<Rightarrow> (Some (Error ''SyntaxError''), s)
      | NullJson \<Rightarrow> (Some TypeError, s)
      | JsonValue d \<Rightarrow>
          if cmd_type d = Some ''connect'' then (None, case_connect cid d s)
          else if cmd_type d = Some ''list_files'' then (None, case_list_files cid d s)
          else if cmd_type d = Some ''download_file'' then (None, case_download_file cid d s)
          else if cmd_type d = Some ''upload_file'' then case_upload_file cid d s
          else if cmd_type d = Some ''delete_file'' then (None, case_delete_file cid d s)
          else if cmd_type d = Some ''create_directory'' then (None, case_create_directory cid d s)
          else if cmd_type d = Some ''disconnect'' then (None, case_disconnect cid s)
          else (None, case_default cid s))"

text \<open>\<open>ws.on('message')\<close>: the \<open>catch\<close> answers every exception of the body.\<close>

definition on_message :: "string \<Rightarrow> inbound \<Rightarrow> server \<Rightarrow> server" where
  "on_message cid m s =
     (case try_message cid m s of
        (None, s') \<Rightarrow> s'
      | (Some e, s') \<Rightarrow>
          sendResponse cid ''error'' (error_response ''Invalid message format or server error'') s')"

text \<open>
  The handlers that the \<open>connect\<close> case attaches to the ssh2 client, lines 63-93.  They
  run outside any \<open>try\<close>: an exception is returned beside the state.
\<close>

definition on_ready :: "string \<Rightarrow> server \<Rightarrow> js_error option \<times> server" where
  "on_ready cid s =
     (let s1 = s\<lparr>activeConnections := (activeConnections s)
                   (cid \<mapsto> \<lparr>session_client = sftpClient s cid, session_sftp = None\<rparr>)\<rparr>
      in case sftpClient s cid of
           None \<Rightarrow> (Some TypeError, s1)
         | Some c \<Rightarrow> (None, call_remote cid (ClientSftp c) s1))"

text \<open>The callback of \<open>sftpClient.sftp\<close>: an error text, or the handle of the session.\<close>

definition on_sftp :: "string \<Rightarrow> string + nat \<Rightarrow> server \<Rightarrow> js_error option \<times> server" where
  "on_sftp cid res s =
     (case res of
        Inl err \<Rightarrow> (None, sendResponse cid ''connect_error'' (error_response err) s)
      | Inr h \<Rightarrow>
          (case activeConnections s cid of
             None \<Rightarrow> (Some TypeError, s)
           | Some c \<Rightarrow>
               (None, sendResponse cid ''connect_success''
                  (empty_message\<lparr>msg_connectionId := Some cid\<rparr>)
                  (s\<lparr>activeConnections := (activeConnections s)
                        (cid \<mapsto> c\<lparr>session_sftp := Some h\<rparr>)\<rparr>))))"

definition on_error :: "string \<Rightarrow> string \<Rightarrow> server \<Rightarrow> server" where
  "on_error cid err s = sendResponse cid ''connect_error'' (error_response err) s"

definition on_end :: "string \<Rightarrow> server \<Rightarrow> server" where
  "on_end cid s =
     sendResponse cid ''disconnect'' (empty_message\<lparr>msg_message := Some ''Connection ended''\<rparr>) s"

definition on_close :: "string \<Rightarrow> server \<Rightarrow> server" where
  "on_close cid s =
     sendResponse cid ''disconnect'' (empty_message\<lparr>msg_message := Some ''Connection closed''\<rparr>)
       (s\<lparr>activeConnections := (activeConnections s)(cid := None)\<rparr>)"

text \<open>\<open>ws.on('close')\<close>, lines 289-298.\<close>

definition on_ws_close :: "string \<Rightarrow> server \<Rightarrow> server" where
  "on_ws_close cid s =
     (case sftpClient s cid of
        Some c \<Rightarrow> call_remote cid (ClientEnd c) s
      | None \<Rightarrow> s)\<lparr>activeConnections := (activeConnections s)(cid := None)\<rparr>"

text \<open>
  The \<open>end\<close> handler of the download stream, lines 169-176: the chunks are joined and
  sent as base64.
\<close>

definition on_stream_end ::
  "string \<Rightarrow> string option \<Rightarrow> 8 word list list \<Rightarrow> nat option \<Rightarrow> server \<Rightarrow> server" where
  "on_stream_end cid remotePath chunks size_attr s =
     sendResponse cid ''file_content''
       (empty_message\<lparr>msg_path := remotePath,
          msg_content := Some (buffer_to_base64 (concat chunks)), msg_size := size_attr\<rparr>) s"

text \<open>The module starts with an empty map and no channel.\<close>

definition initial_server :: server where
  "initial_server = \<lparr>activeConnections = Map.empty, sftpClient = Map.empty, sent = [],
     remote = [], nextClient = 0\<rparr>"

text \<open>The labels of the \<open>switch\<close>.\<close>

definition command_kinds :: "string list" where
  "command_kinds = [''connect'', ''list_files'', ''download_file'', ''upload_file'',
     ''delete_file'', ''create_directory'', ''disconnect'']"

text \<open>
  Everything that can happen to the bridge, and a run of it.  An exception that leaves
  an ssh2 handler is uncaught: the process ends, and the run has no state (\<open>None\<close>).
\<close>

datatype server_event =
    Message string inbound
  | Ready string
  | SftpResult string "string + nat"
  | RemoteError string string
  | RemoteEnd string
  | RemoteClose string
  | ChannelClose string

definition completed :: "js_error option \<times> server \<Rightarrow> server option" where
  "completed res = (case res of (None, s) \<Rightarrow> Some s | (Some e, s) \<Rightarrow> None)"

fun server_step :: "server_event \<Rightarrow> server \<Rightarrow> server option" where
  "server_step (Message cid m) s = Some (on_message cid m s)"
| "server_step (Ready cid) s = completed (on_ready cid s)"
| "server_step (SftpResult cid res) s = completed (on_sftp cid res s)"
| "server_step (RemoteError cid err) s = Some (on_error cid err s)"
| "server_step (RemoteEnd cid) s = Some (on_end cid s)"
| "server_step (RemoteClose cid) s = Some (on_close cid s)"
| "server_step (ChannelClose cid) s = Some (on_ws_close cid s)"

fun server_run :: "server_event list \<Rightarrow> server \<Rightarrow> server option" where
  "server_run [] s = Some s"
| "server_run (e # es) s = (case server_step e s of None \<Rightarrow> None | Some s' \<Rightarrow> server_run es s')"

subsection \<open>formatFileSize\<close>

text \<open>
  \<open>bytes\<close> is a file size: a natural number that a double holds exactly, so one up to
  2 to the 53rd.  \<open>toFixed(2)\<close> of the quotient is the nearest multiple of 0.01, a tie
  going up, as ECMAScript defines it, and a division by a power of 1024 is exact in a
  double.
\<close>

definition units :: "string list" where
  "units = [''B'', ''KB'', ''MB'', ''GB'', ''TB'']"

text \<open>The exact integer logarithm to the base 1024.\<close>

fun exact_log_1024 :: "nat \<Rightarrow> nat" where
  "exact_log_1024 n = (if n < 1024 then 0 else Suc (exact_log_1024 (n div 1024)))"

text \<open>
  \<open>Math.floor(Math.log(bytes) / Math.log(k))\<close> is computed in doubles, from two
  logarithms that are each rounded.  At a power of 1024 both logarithms are multiples
  of the same rounded \<open>ln 2\<close> and the quotient is the exponent.  Elsewhere the computed
  quotient is within a few units in the last place of the true one, which decides the
  integer part unless the size is very close to a power of 1024: within one part in
  2 to the 44th of a power that it is not, the quotient may be rounded to either side of
  the exponent.  There the index is left open (\<open>None\<close>), as it is for a size that a double
  need not hold and for 0, which \<open>formatFileSize\<close> answers before it takes a logarithm.
  Below 1024 to the fifth the sizes left open are the 64 just under it.
\<close>

definition near_power :: "nat \<Rightarrow> nat \<Rightarrow> bool" where
  "near_power bytes p \<longleftrightarrow>
     bytes \<noteq> p \<and> (if bytes < p then (p - bytes) * 2 ^ 44 \<le> p else (bytes - p) * 2 ^ 44 \<le> p)"

definition math_floor_log :: "nat \<Rightarrow> nat option" where
  "math_floor_log bytes =
     (let i = exact_log_1024 bytes in
      if bytes = 0 \<or> 2 ^ 53 < bytes then None
      else if near_power bytes (1024 ^ i) \<or> near_power bytes (1024 ^ Suc i) then None
      else Some i)"

definition digit_char :: "nat \<Rightarrow> char" where
  "digit_char d = ''0123456789'' ! d"

fun decimal :: "nat \<Rightarrow> string" where
  "decimal n = (if n < 10 then [digit_char n] else decimal (n div 10) @ [digit_char (n mod 10)])"

text \<open>\<open>(a / b).toFixed(2)\<close> for natural numbers \<open>a\<close> and \<open>b > 0\<close>.\<close>

definition hundredths :: "nat \<Rightarrow> nat \<Rightarrow> nat" where
  "hundredths a b = (200 * a + b) div (2 * b)"

definition toFixed2 :: "nat \<Rightarrow> nat \<Rightarrow> string" where
  "toFixed2 a b =
     (let n = hundredths a b
      in decimal (n div 100) @ ''.'' @ [digit_char (n mod 100 div 10), digit_char (n mod 10)])"

text \<open>\<open>' ' + units[i]\<close>: an index past the array reads \<open>undefined\<close>.\<close>

definition unit_name :: "nat \<Rightarrow> string" where
  "unit_name i = (if i < length units then units ! i else ''undefined'')"

text \<open>
  \<open>formatFileSize\<close>: the string returned, or \<open>None\<close> where the index is left open.
\<close>

definition formatFileSize :: "nat \<Rightarrow> string option" where
  "formatFileSize bytes =
     (if bytes = 0 then Some ''0 B''
      else case math_floor_log bytes of
             None \<Rightarrow> None
           | Some i \<Rightarrow> Some (toFixed2 bytes (1024 ^ i) @ '' '' @ unit_name i))"

text \<open>The \<open>size\<close> of a listed entry, line 127.\<close>

definition entry_size :: "bool \<Rightarrow> nat \<Rightarrow> string option" where
  "entry_size isDirectory size_attr =
     (if isDirectory then Some ''-'' else formatFileSize size_attr)"

section \<open>Notions used in the proofs\<close>

text \<open>The sextets and the padding that \<open>base64_encode\<close> writes, taken apart.\<close>

fun sextets_of :: "8 word list \<Rightarrow> nat list" where
  "sextets_of (a # b # c # rest) =
     [unat a div 4, (unat a mod 4) * 16 + unat b div 16,
      (unat b mod 16) * 4 + unat c div 64, unat c mod 64] @ sextets_of rest"
| "sextets_of [a, b] = [unat a div 4, (unat a mod 4) * 16 + unat b div 16, (unat b mod 16) * 4]"
| "sextets_of [a] = [unat a div 4, (unat a mod 4) * 16]"
| "sextets_of [] = []"

fun padding :: "8 word list \<Rightarrow> string" where
  "padding (a # b # c # rest) = padding rest"
| "padding [a, b] = ''=''"
| "padding [a] = ''==''"
| "padding [] = []"

text \<open>
  On the bridge, an entry of the map exists only while the channel's variable holds a
  client: every run that no uncaught exception ends keeps this.
\<close>

definition registry_inv :: "server \<Rightarrow> bool" where
  "registry_inv s = (\<forall>cid. activeConnections s cid = None \<or> sftpClient s cid \<noteq> None)"

text \<open>A channel whose credentials the remote host accepted.\<close>

definition accepted_run :: "server_event list" where
  "accepted_run = [Message ''c1'' (JsonValue (empty_command\<lparr>cmd_type := Some ''connect''\<rparr>)),
     Ready ''c1'', SftpResult ''c1'' (Inr 0)]"

text \<open>Whether calling a registered function takes it out of the list of an event.\<close>

fun unregisters :: "callback \<Rightarrow> string \<Rightarrow> bool" where
  "unregisters (Plain h) e = False"
| "unregisters (OnceCallback w event h) e = (event = e)"

text \<open>
  What every state of the client keeps: the keys of the table are those of the
  constructor, and every request that a registered function, a pending timeout or a
  settled promise names has been allocated.
\<close>

definition client_inv :: "client \<Rightarrow> bool" where
  "client_inv s \<longleftrightarrow>
     dom (eventListeners s) = set constructor_keys
   \<and> (\<forall>e l c r. eventListeners s e = Some l \<longrightarrow> c \<in> set l \<longrightarrow>
          callback_request c = Some r \<longrightarrow> r < nextId s)
   \<and> (\<forall>t x. timers s t = Some x \<longrightarrow> t < nextId s)
   \<and> (\<forall>x \<in> set (settled s). fst x < nextId s)"

definition evolves :: "client \<Rightarrow> client \<Rightarrow> bool" where
  "evolves s s' \<longleftrightarrow>
     nextId s \<le> nextId s'
   \<and> (\<forall>e. (eventListeners s' e = None) = (eventListeners s e = None))
   \<and> (\<forall>e l l' c. eventListeners s e = Some l \<longrightarrow> eventListeners s' e = Some l' \<longrightarrow> c \<in> set l' \<longrightarrow>
          c \<in> set l \<or> (\<forall>r. callback_request c = Some r \<longrightarrow> nextId s \<le> r \<and> r < nextId s'))
   \<and> (\<forall>e l l' r. eventListeners s e = Some l \<longrightarrow> eventListeners s' e = Some l' \<longrightarrow> r < nextId s \<longrightarrow>
          length (filter (\<lambda>c. callback_request c = Some r) l')
            \<le> length (filter (\<lambda>c. callback_request c = Some r) l))
   \<and> (\<forall>t x. timers s' t = Some x \<longrightarrow> timers s t = Some x \<or> (nextId s \<le> t \<and> t < nextId s'))
   \<and> (\<exists>ext. settled s' = settled s @ ext \<and> (\<forall>x \<in> set ext.
          timers s (fst x) \<noteq> None
        \<or> (\<exists>e l c. eventListeners s e = Some l \<and> c \<in> set l \<and> callback_request c = Some (fst x))
        \<or> (nextId s \<le> fst x \<and> fst x < nextId s')))"

text \<open>
  The executor that the six request methods share: the timeout, the two one-shot
  registrations, then the statements that build and send the command.
\<close>

definition request_exec ::
  "nat \<Rightarrow> string \<Rightarrow> handler \<Rightarrow> string \<Rightarrow> handler \<Rightarrow> string \<Rightarrow> (client \<Rightarrow> result) \<Rightarrow> client \<Rightarrow> client" where
  "request_exec r sk h1 ek h2 tmsg body s0 =
     executor r (and_then (and_then (once sk h1 (setTimeout r tmsg s0)) (once ek h2)) body)"

text \<open>
  Statements that touch neither the table, the timeouts, the counter nor the promises.
\<close>

definition frame_only :: "(client \<Rightarrow> result) \<Rightarrow> bool" where
  "frame_only body \<longleftrightarrow> (\<forall>st. eventListeners (snd (body st)) = eventListeners st
      \<and> timers (snd (body st)) = timers st \<and> nextId (snd (body st)) = nextId st
      \<and> settled (snd (body st)) = settled st)"

text \<open>
  A client just constructed in which the socket is open and \<open>isConnected\<close> has been set
  by hand.  No run of the client leads to it.
\<close>

definition connected_client :: client where
  "connected_client = constructor\<lparr>wsOpen := True, isConnected := True\<rparr>"

text \<open>
  An \<open>error\<close> response of the bridge.
\<close>

definition permission_denied :: frame where
  "permission_denied = Json (empty_message\<lparr>msg_type := Some ''error'', msg_error := Some ''Permission denied''\<rparr>)"

text \<open>
  The \<open>connect_success\<close> response that the bridge sends on channel \<open>c1\<close>.
\<close>

definition bridge_accepts :: wire_message where
  "bridge_accepts = empty_message\<lparr>msg_connectionId := Some ''c1'', msg_type := Some ''connect_success''\<rparr>"

text \<open>
  The bridge after the run \<open>accepted_run\<close>.
\<close>

definition accepted_server :: server where
  "accepted_server = \<lparr>activeConnections = [''c1'' \<mapsto> \<lparr>session_client = Some 0, session_sftp = Some 0\<rparr>],
     sftpClient = [''c1'' \<mapsto> 0],
     sent = [(''c1'', empty_message\<lparr>msg_connectionId := Some ''c1'', msg_type := Some ''connect_success''\<rparr>)],
     remote = [(''c1'', ClientConnect 0 (config_of (empty_command\<lparr>cmd_type := Some ''connect''\<rparr>))),
               (''c1'', ClientSftp 0)],
     nextClient = 1\<rparr>"

text \<open>
  The notification that answers a \<open>disconnect\<close> command.
\<close>

definition disconnected_notice :: frame where
  "disconnected_notice = Json (empty_message\<lparr>msg_type := Some ''disconnect'',
     msg_message := Some ''Disconnected''\<rparr>)"

text \<open>
  A callback that a caller registered with \<open>on\<close>, as opposed to a handler of a request.
\<close>

fun subscriber :: "callback \<Rightarrow> bool" where
  "subscriber (Plain (Subscriber k)) = True"
| "subscriber cb = False"

text \<open>
  A client without a session in which the listener table has the eight keys of the
  constructor and holds nothing but callbacks registered by callers.
\<close>

definition idle :: "client \<Rightarrow> bool" where
  "idle s \<longleftrightarrow> \<not> isConnected s \<and> dom (eventListeners s) = set constructor_keys
     \<and> (\<forall>e l. eventListeners s e = Some l \<longrightarrow> list_all subscriber l)"



text \<open>
  The \<open>file_content\<close> response of the bridge for a file of the three bytes 0x00, 0xFF,
  0x41 at \<open>/f.bin\<close>.
\<close>

definition file_reply :: wire_message where
  "file_reply = empty_message\<lparr>msg_path := Some ''/f.bin'', msg_content := Some ''AP9B'',
     msg_size := Some 3, msg_type := Some ''file_content''\<rparr>"

section \<open>The transfer codec is exact\<close>


lemma sextet_arith_1: assumes "y < 256" shows "(x div 4) * 4 + ((x mod 4) * 16 + y div 16) div 16 = (x::nat)"
proof -
  have "y div 16 < 16" using assms by (simp add: less_mult_imp_div_less)
  then have "((x mod 4) * 16 + y div 16) div 16 = x mod 4" by simp
  then show ?thesis by simp
qed

lemma sextet_arith_2: assumes "y < 256" "z < 256"
  shows "(((x mod 4) * 16 + y div 16) mod 16) * 16 + ((y mod 16) * 4 + z div 64) div 4 = (y::nat)"
proof -
  have a: "y div 16 < 16" using assms by (simp add: less_mult_imp_div_less)
  have b: "z div 64 < 4" using assms by (simp add: less_mult_imp_div_less)
  have "((x mod 4) * 16 + y div 16) mod 16 = y div 16" using a by simp
  moreover have "((y mod 16) * 4 + z div 64) div 4 = y mod 16" using b by simp
  ultimately show ?thesis by simp
qed

lemma sextet_arith_3: assumes "z < 256" shows "(((y mod 16) * 4 + z div 64) mod 4) * 64 + z mod 64 = (z::nat)"
proof -
  have b: "z div 64 < 4" using assms by (simp add: less_mult_imp_div_less)
  have "((y mod 16) * 4 + z div 64) mod 4 = z div 64" using b by simp
  then show ?thesis by simp
qed

lemma sextet_arith_2b: assumes "y < 256"
  shows "(((x mod 4) * 16 + y div 16) mod 16) * 16 + ((y mod 16) * 4) div 4 = (y::nat)"
proof -
  have a: "y div 16 < 16" using assms by (simp add: less_mult_imp_div_less)
  have "((x mod 4) * 16 + y div 16) mod 16 = y div 16" using a by simp
  then show ?thesis by simp
qed

lemma sextet_arith_1b: "(x div 4) * 4 + ((x mod 4) * 16) div 16 = (x::nat)"
  by simp

lemma unat_byte_bound: "unat (a :: 8 word) < 256"
  using unsigned_less[of a] by simp


lemma encode_split: "base64_encode bs = map sextet_char (sextets_of bs) @ padding bs"
  by (induction bs rule: base64_encode.induct) simp_all

lemma sextets_bound: "n \<in> set (sextets_of bs) \<Longrightarrow> n < 64"
proof (induction bs arbitrary: n rule: sextets_of.induct)
  case (1 a b c rest)
  have "unat a < 256" "unat b < 256" "unat c < 256" by (rule unat_byte_bound)+
  then have "unat a div 4 < 64" "(unat a mod 4) * 16 + unat b div 16 < 64"
    "(unat b mod 16) * 4 + unat c div 64 < 64" "unat c mod 64 < 64"
    by (simp_all add: less_mult_imp_div_less)
  with 1 show ?case by auto
next
  case (2 a b)
  have "unat a < 256" "unat b < 256" by (rule unat_byte_bound)+
  then have "unat a div 4 < 64" "(unat a mod 4) * 16 + unat b div 16 < 64"
    "(unat b mod 16) * 4 < 64"
    by (simp_all add: less_mult_imp_div_less)
  with 2 show ?case by auto
next
  case (3 a)
  have "unat a < 256" by (rule unat_byte_bound)
  then have "unat a div 4 < 64" "(unat a mod 4) * 16 < 64"
    by (simp_all add: less_mult_imp_div_less)
  with 3 show ?case by auto
next
  case 4
  then show ?case by simp
qed

lemma of_nat_unat_byte: "of_nat (unat (a :: 8 word)) = a" by simp

lemma decode_sextets_of: "decode_sextets (sextets_of bs) = bs"
proof (induction bs rule: sextets_of.induct)
  case (1 a b c rest)
  have u: "unat a < 256" "unat b < 256" "unat c < 256" by (rule unat_byte_bound)+
  show ?case
    by (simp only: sextets_of.simps decode_sextets.simps append_Cons append_Nil
        sextet_arith_1[OF u(2)] sextet_arith_2[OF u(2) u(3)] sextet_arith_3[OF u(3)] of_nat_unat_byte 1)
next
  case (2 a b)
  have u: "unat a < 256" "unat b < 256" by (rule unat_byte_bound)+
  show ?case
    by (simp only: sextets_of.simps decode_sextets.simps sextet_arith_1[OF u(2)] sextet_arith_2b[OF u(2)] of_nat_unat_byte)
next
  case (3 a)
  show ?case
    by (simp only: sextets_of.simps decode_sextets.simps sextet_arith_1b of_nat_unat_byte)
next
  case 4
  show ?case by simp
qed


lemma ucast_up_down: "(ucast (ucast (a :: 8 word) :: 16 word) :: 8 word) = a"
  by (simp add: ucast_up_ucast_id is_up)

lemma unat_ucast_byte: "unat (ucast (a :: 8 word) :: 16 word) = unat a"
proof -
  have "unat a < 2 ^ 16" using unat_byte_bound[of a] by simp
  then show ?thesis by (simp add: unsigned_ucast_eq take_bit_nat_eq_self)
qed

lemma sextet_char_facts:
  "\<forall>n<64. char_sextet (sextet_char n) = Some n \<and> sextet_char n \<noteq> CHR ''=''
      \<and> sextet_char n \<notin> set ascii_whitespace"
  by code_simp

lemma char_sextet_char: "n < 64 \<Longrightarrow> char_sextet (sextet_char n) = Some n"
  using sextet_char_facts by blast

lemma sextet_char_not_pad: "n < 64 \<Longrightarrow> sextet_char n \<noteq> CHR ''=''"
  using sextet_char_facts by blast

lemma sextet_char_not_space: "n < 64 \<Longrightarrow> sextet_char n \<notin> set ascii_whitespace"
  using sextet_char_facts by blast

lemma unbase64_char: "n < 64 \<Longrightarrow> unbase64 (sextet_char n) = Some n"
  by (simp add: unbase64_def char_sextet_char)

lemma padding_cases:
  "(padding bs = [] \<and> length (sextets_of bs) mod 4 = 0)
   \<or> (padding bs = ''='' \<and> length (sextets_of bs) mod 4 = 3)
   \<or> (padding bs = ''=='' \<and> length (sextets_of bs) mod 4 = 2)"
  by (induction bs rule: sextets_of.induct) auto

lemma map_filter_sextets:
  "(\<And>n. n \<in> set sx \<Longrightarrow> f (sextet_char n) = Some n) \<Longrightarrow>
     List.map_filter f (map sextet_char sx) = sx"
  by (induction sx) (simp_all add: map_filter_simps)

lemma takeWhile_body:
  assumes "\<And>n. n \<in> set sx \<Longrightarrow> n < 64" and "p = [] \<or> hd p = CHR ''=''"
  shows "takeWhile (\<lambda>c. c \<noteq> CHR ''='') (map sextet_char sx @ p) = map sextet_char sx"
proof -
  have a: "\<forall>c \<in> set (map sextet_char sx). c \<noteq> CHR ''=''"
    using assms(1) sextet_char_not_pad by auto
  have b: "takeWhile (\<lambda>c. c \<noteq> CHR ''='') p = []"
    using assms(2) by (cases p) auto
  show ?thesis using takeWhile_append2[of "map sextet_char sx" "\<lambda>c. c \<noteq> CHR ''=''" p] a b
    by simp
qed

lemma buffer_roundtrip: "buffer_from_base64 (base64_encode bs) = bs"
proof -
  have p: "padding bs = [] \<or> hd (padding bs) = CHR ''=''"
    using padding_cases[of bs] by auto
  have "takeWhile (\<lambda>c. c \<noteq> CHR ''='') (base64_encode bs) = map sextet_char (sextets_of bs)"
    unfolding encode_split by (rule takeWhile_body[OF sextets_bound p])
  moreover have "List.map_filter unbase64 (map sextet_char (sextets_of bs)) = sextets_of bs"
    by (rule map_filter_sextets) (simp add: unbase64_char sextets_bound)
  ultimately show ?thesis by (simp add: buffer_from_base64_def decode_sextets_of)
qed

lemma strip_padding_none:
  assumes "text = [] \<or> last text \<noteq> CHR ''=''"
  shows "strip_padding text = text"
proof (cases "rev text")
  case Nil
  then show ?thesis by (simp add: strip_padding_def)
next
  case (Cons c r)
  then have "text = rev r @ [c]" by (metis rev_rev_ident rev.simps(2))
  with assms have "c \<noteq> CHR ''=''" by auto
  with Cons show ?thesis by (cases r) (simp_all add: strip_padding_def)
qed

lemma strip_padding_one:
  assumes "body \<noteq> []" "last body \<noteq> CHR ''=''" "length (body @ ''='') mod 4 = 0"
  shows "strip_padding (body @ ''='') = body"
proof -
  obtain d r where r: "rev body = d # r" using assms(1) by (cases "rev body") auto
  then have "body = rev r @ [d]" by (metis rev_rev_ident rev.simps(2))
  with assms(2) have d: "d \<noteq> CHR ''=''" by auto
  have rb: "rev r @ [d] = body" using r by (metis rev_rev_ident rev.simps(2))
  have "strip_padding (body @ ''='') = rev (d # r)"
    using assms(3) d by (simp add: strip_padding_def r)
  then show ?thesis using rb by simp
qed

lemma strip_padding_two:
  assumes "length (body @ ''=='') mod 4 = 0"
  shows "strip_padding (body @ ''=='') = body"
  using assms by (simp add: strip_padding_def)

lemma strip_padding_encode:
  "strip_padding (base64_encode bs) = map sextet_char (sextets_of bs)"
proof -
  let ?body = "map sextet_char (sextets_of bs)"
  have nopad: "\<And>c. c \<in> set ?body \<Longrightarrow> c \<noteq> CHR ''=''"
    using sextets_bound sextet_char_not_pad by auto
  have lastb: "?body \<noteq> [] \<Longrightarrow> last ?body \<noteq> CHR ''=''"
    using nopad last_in_set by blast
  from padding_cases[of bs] show ?thesis
  proof (elim disjE conjE)
    assume p: "padding bs = []" and l: "length (sextets_of bs) mod 4 = 0"
    have "?body = [] \<or> last ?body \<noteq> CHR ''=''" using lastb by blast
    then show ?thesis unfolding encode_split p by (simp add: strip_padding_none)
  next
    assume p: "padding bs = ''=''" and l: "length (sextets_of bs) mod 4 = 3"
    from l have ne: "?body \<noteq> []" by auto
    have len: "length (?body @ ''='') mod 4 = 0" using l by (simp add: mod_Suc)
    show ?thesis unfolding encode_split p by (rule strip_padding_one[OF ne lastb[OF ne] len])
  next
    assume p: "padding bs = ''==''" and l: "length (sextets_of bs) mod 4 = 2"
    have len: "length (?body @ ''=='') mod 4 = 0" using l by (simp add: mod_Suc)
    show ?thesis unfolding encode_split p by (rule strip_padding_two[OF len])
  qed
qed

lemma no_space_encode:
  "filter (\<lambda>c. c \<notin> set ascii_whitespace) (base64_encode bs) = base64_encode bs"
proof -
  have "\<And>c. c \<in> set (padding bs) \<Longrightarrow> c \<notin> set ascii_whitespace"
    using padding_cases[of bs] by (auto simp: ascii_whitespace_def)
  moreover have "\<And>c. c \<in> set (map sextet_char (sextets_of bs)) \<Longrightarrow> c \<notin> set ascii_whitespace"
    using sextets_bound sextet_char_not_space by auto
  ultimately show ?thesis unfolding encode_split by (simp add: filter_id_conv)
qed

lemma atob_roundtrip: "atob (base64_encode bs) = Some (map ucast bs)"
proof -
  let ?body = "map sextet_char (sextets_of bs)"
  have l: "length ?body mod 4 \<noteq> 1" using padding_cases[of bs] by auto
  have v: "\<not> list_ex (\<lambda>c. char_sextet c = None) ?body"
    using sextets_bound char_sextet_char by (auto simp: list_ex_iff)
  have m: "List.map_filter char_sextet ?body = sextets_of bs"
    by (rule map_filter_sextets) (simp add: char_sextet_char sextets_bound)
  show ?thesis
    using l v by (simp add: atob_def no_space_encode strip_padding_encode m decode_sextets_of)
qed

lemma btoa_bytes: "btoa (map ucast (bs :: 8 word list)) = Some (base64_encode bs)"
proof -
  have "\<And>a :: 8 word. \<not> 255 < unat a"
  proof -
    fix a :: "8 word"
    have "unat a < 256" by (rule unat_byte_bound)
    then show "\<not> 255 < unat a" by arith
  qed
  then have "\<not> list_ex (\<lambda>u. 255 < unat u) (map ucast bs :: 16 word list)"
    by (simp add: list_ex_iff unat_ucast_byte)
  moreover have "map ucast (map ucast bs :: 16 word list) = bs"
    by (simp add: ucast_up_down comp_def)
  ultimately show ?thesis by (simp add: btoa_def)
qed

lemma code_units_are_bytes: "map ucast (map ucast (bs :: 8 word list) :: 16 word list) = bs"
  by (simp add: ucast_up_down comp_def)

lemma encode_content_bytes:
  "length bs \<le> maxArguments \<Longrightarrow>
     encode_content maxArguments (ArrayBufferContent bs) = Inr (base64_encode bs)"
  by (simp add: encode_content_def fromCharCode_apply_def btoa_bytes)

lemma encode_content_overflow:
  "maxArguments < length bs \<Longrightarrow>
     encode_content maxArguments (ArrayBufferContent bs) = Inl RangeError"
  by (simp add: encode_content_def fromCharCode_apply_def)

lemma uploadFile_sends:
  assumes "isConnected s" "wsOpen s" "length bs \<le> maxArguments"
  shows "outbox (uploadFile maxArguments remotePath (ArrayBufferContent bs) s) =
           outbox s @ [empty_command\<lparr>cmd_type := Some ''upload_file'',
                         cmd_remotePath := Some remotePath,
                         cmd_content := Some (base64_encode bs)\<rparr>]"
  using assms
  by (simp add: uploadFile_def executor_def and_then_def once_def on_def lookup_listeners_def
      sendMessage_def encode_content_bytes setTimeout_def new_promise_def Let_def
      object_prototype_names_def split: option.split)

lemma upload_command_writes:
  assumes "active_sftp srv cid = Some h"
  shows "on_message cid (JsonValue (empty_command\<lparr>cmd_type := Some ''upload_file'',
             cmd_remotePath := Some remotePath, cmd_content := Some (base64_encode bs)\<rparr>)) srv
         = srv\<lparr>remote := remote srv @ [(cid, SftpWrite h (Some remotePath) bs)]\<rparr>"
  using assms
  by (simp add: on_message_def try_message_def case_upload_file_def call_remote_def
      buffer_roundtrip empty_command_def)

lemma download_handler_decodes:
  "call_handler (OnFileContent r)
       (empty_message\<lparr>msg_path := p, msg_content := Some (buffer_to_base64 (concat chunks)),
          msg_size := n, msg_type := Some ''file_content''\<rparr>) s
     = (None, resolve r (VContent (map ucast (concat chunks)) n p) (clearTimeout r s))"
  by (simp add: content_text_def buffer_to_base64_def atob_roundtrip empty_message_def)

section \<open>formatFileSize\<close>


lemma exact_log_1024_bounds:
  "0 < n \<Longrightarrow> 1024 ^ exact_log_1024 n \<le> n \<and> n < 1024 ^ Suc (exact_log_1024 n)"
proof (induction n rule: exact_log_1024.induct)
  case (1 n)
  show ?case
  proof (cases "n < 1024")
    case True
    with 1 show ?thesis by simp
  next
    case False
    then have "0 < n div 1024" by simp
    with 1 False have ih: "1024 ^ exact_log_1024 (n div 1024) \<le> n div 1024"
      "n div 1024 < 1024 ^ Suc (exact_log_1024 (n div 1024))" by auto
    from False have eq: "exact_log_1024 n = Suc (exact_log_1024 (n div 1024))" by simp
    from ih(1) have "1024 * 1024 ^ exact_log_1024 (n div 1024) \<le> 1024 * (n div 1024)" by simp
    also have "\<dots> \<le> n" by simp
    finally have a: "1024 ^ exact_log_1024 n \<le> n" using eq by simp
    from ih(2) have "n div 1024 + 1 \<le> 1024 ^ Suc (exact_log_1024 (n div 1024))" by simp
    then have "1024 * (n div 1024 + 1) \<le> 1024 * 1024 ^ Suc (exact_log_1024 (n div 1024))"
      by (rule mult_le_mono2)
    moreover have "n < 1024 * (n div 1024 + 1)"
      by (simp add: dividend_less_times_div)
    ultimately have b: "n < 1024 ^ Suc (exact_log_1024 n)" using eq by simp
    from a b show ?thesis by simp
  qed
qed

lemma hundredths_nearest:
  assumes "0 < b"
  shows "2 * b * hundredths a b \<le> 200 * a + b \<and> 200 * a + b < 2 * b * hundredths a b + 2 * b"
proof -
  have "(200 * a + b) div (2 * b) * (2 * b) \<le> 200 * a + b" by (rule div_times_less_eq_dividend)
  moreover have "200 * a + b < 2 * b + (200 * a + b) div (2 * b) * (2 * b)"
    using assms dividend_less_div_times[of "2 * b" "200 * a + b"] by simp
  ultimately show ?thesis by (simp add: hundredths_def mult.commute add.commute)
qed

lemma math_floor_log_exact:
  assumes "0 < bytes" "bytes + 65 \<le> 1024 ^ 5"
  shows "math_floor_log bytes = Some (exact_log_1024 bytes) \<and> exact_log_1024 bytes < 5"
proof -
  define i where "i = exact_log_1024 bytes"
  have b: "1024 ^ i \<le> bytes" "bytes < 1024 ^ Suc i"
    using exact_log_1024_bounds[OF assms(1)] unfolding i_def by blast+
  have lt: "(1024::nat) ^ i < 1024 ^ 5" using b(1) assms(2) by simp
  have i5: "i < 5" by (rule power_less_imp_less_exp[OF _ lt]) simp
  have p4: "(1024::nat) ^ 4 < 2 ^ 44" by simp
  have small: "(1024::nat) ^ i < 2 ^ 44"
  proof -
    from i5 have "i \<le> 4" by simp
    then have "(1024::nat) ^ i \<le> 1024 ^ 4" by (rule power_increasing) simp
    then show ?thesis using p4 by (rule le_less_trans)
  qed
  have n1: "\<not> near_power bytes (1024 ^ i)"
  proof (cases "bytes = 1024 ^ i")
    case True
    then show ?thesis by (simp add: near_power_def)
  next
    case False
    with b(1) have "1 \<le> bytes - 1024 ^ i" by simp
    then have "1 * 2 ^ 44 \<le> (bytes - 1024 ^ i) * (2 ^ 44 :: nat)" by (rule mult_le_mono1)
    with small have "\<not> (bytes - 1024 ^ i) * 2 ^ 44 \<le> 1024 ^ i" by simp
    with b(1) False show ?thesis by (simp add: near_power_def)
  qed
  have n2: "\<not> near_power bytes (1024 ^ Suc i)"
  proof (cases "i = 4")
    case True
    have e: "(1024::nat) ^ Suc i = 1024 ^ 5" using True by simp
    with assms(2) have "65 \<le> 1024 ^ Suc i - bytes" by simp
    then have "65 * 2 ^ 44 \<le> (1024 ^ Suc i - bytes) * (2 ^ 44 :: nat)" by (rule mult_le_mono1)
    moreover have "(1024::nat) ^ Suc i < 65 * 2 ^ 44" unfolding e by simp
    ultimately have "\<not> (1024 ^ Suc i - bytes) * 2 ^ 44 \<le> 1024 ^ Suc i" by linarith
    with b(2) show ?thesis by (simp add: near_power_def)
  next
    case False
    with i5 have "Suc i \<le> 4" by simp
    then have "(1024::nat) ^ Suc i \<le> 1024 ^ 4" by (rule power_increasing) simp
    then have s: "(1024::nat) ^ Suc i < 2 ^ 44" using p4 by (rule le_less_trans)
    from b(2) have "1 \<le> 1024 ^ Suc i - bytes" by simp
    then have "1 * 2 ^ 44 \<le> (1024 ^ Suc i - bytes) * (2 ^ 44 :: nat)" by (rule mult_le_mono1)
    with s have "\<not> (1024 ^ Suc i - bytes) * 2 ^ 44 \<le> 1024 ^ Suc i" by linarith
    with b(2) show ?thesis by (simp add: near_power_def)
  qed
  have "bytes \<le> 2 ^ 53" using assms(2) by simp
  then have "\<not> 2 ^ 53 < bytes" by simp
  with n1 n2 assms(1) have "math_floor_log bytes = Some i"
    unfolding math_floor_log_def Let_def i_def[symmetric] by simp
  with i5 show ?thesis unfolding i_def by simp
qed

text \<open>
  What the function does for a size from 1 byte up to 64 short of 1024 to the fifth: the
  unit is the one of B, KB, MB, GB, TB whose power of 1024 is the largest not above the
  size, and the number is the quotient rounded to the nearest hundredth.
\<close>

lemma formatFileSize_general:
  assumes "0 < bytes" "bytes + 65 \<le> 1024 ^ 5"
  shows "\<exists>i q. i < 5 \<and> 1024 ^ i \<le> bytes \<and> bytes < 1024 ^ Suc i
     \<and> 2 * 1024 ^ i * q \<le> 200 * bytes + 1024 ^ i
     \<and> 200 * bytes + 1024 ^ i < 2 * 1024 ^ i * q + 2 * 1024 ^ i
     \<and> formatFileSize bytes =
         Some (decimal (q div 100) @ ''.'' @ [digit_char (q mod 100 div 10), digit_char (q mod 10)]
           @ '' '' @ units ! i)"
proof -
  define i where "i = exact_log_1024 bytes"
  define q where "q = hundredths bytes (1024 ^ i)"
  have b: "1024 ^ i \<le> bytes" "bytes < 1024 ^ Suc i"
    using exact_log_1024_bounds[OF assms(1)] unfolding i_def by blast+
  have m: "math_floor_log bytes = Some i" and i5: "i < 5"
    using math_floor_log_exact[OF assms] unfolding i_def by blast+
  have n: "2 * 1024 ^ i * q \<le> 200 * bytes + 1024 ^ i"
    "200 * bytes + 1024 ^ i < 2 * 1024 ^ i * q + 2 * 1024 ^ i"
    using hundredths_nearest[of "1024 ^ i" bytes] unfolding q_def by auto
  have f: "formatFileSize bytes =
         Some (decimal (q div 100) @ ''.'' @ [digit_char (q mod 100 div 10), digit_char (q mod 10)]
           @ '' '' @ units ! i)"
    using assms(1) i5 unfolding q_def
    by (simp add: formatFileSize_def m toFixed2_def unit_name_def units_def Let_def
        del: decimal.simps)
  from i5 b n f show ?thesis by blast
qed

lemmas format_eval = formatFileSize_def math_floor_log_def near_power_def toFixed2_def
  hundredths_def unit_name_def units_def digit_char_def Let_def

text \<open>
  Claim C6 fails on the code.  The four sizes of the claim are formatted as it says.
  The table of units ends at TB and the index is not held below its length: a size of
  1024 to the fifth has the index 5, \<open>units[5]\<close> is \<open>undefined\<close>, and the text returned
  is \<open>1.00 undefined\<close>; three times that size gives \<open>3.00 undefined\<close>.
\<close>

theorem formatFileSize_undefined_unit:
  "formatFileSize 0 = Some ''0 B''
   \<and> formatFileSize 1023 = Some ''1023.00 B''
   \<and> formatFileSize 1024 = Some ''1.00 KB''
   \<and> formatFileSize 1048576 = Some ''1.00 MB''
   \<and> formatFileSize 1125899906842624 = Some ''1.00 undefined''
   \<and> formatFileSize 3377699720527872 = Some ''3.00 undefined''"
proof -
  have a: "formatFileSize 0 = Some ''0 B''" by (simp add: formatFileSize_def)
  have b: "formatFileSize 1023 = Some ''1023.00 B''" by (simp add: format_eval)
  have c: "formatFileSize 1024 = Some ''1.00 KB''" by (simp add: format_eval)
  have d: "formatFileSize 1048576 = Some ''1.00 MB''" by (simp add: format_eval)
  have e: "formatFileSize 1125899906842624 = Some ''1.00 undefined''" by (simp add: format_eval)
  have g: "formatFileSize 3377699720527872 = Some ''3.00 undefined''" by (simp add: format_eval)
  from a b c d e g show ?thesis by (intro conjI)
qed

section \<open>The bridge: dispatcher and registry\<close>

lemma registry_inv_step: "registry_inv s \<Longrightarrow> server_step e s = Some s' \<Longrightarrow> registry_inv s'"
  apply (cases e)
  apply (auto simp: registry_inv_def on_message_def try_message_def case_connect_def on_ready_def
      on_sftp_def Let_def on_end_def on_error_def on_close_def on_ws_close_def completed_def
      case_list_files_def case_download_file_def case_upload_file_def case_delete_file_def
      case_create_directory_def no_connection_def case_disconnect_def case_default_def
      sendResponse_def call_remote_def
      split: option.splits if_splits inbound.splits sum.splits prod.splits)
    apply (metis option.distinct(1))+
  done

lemma registry_inv_run: "registry_inv s \<Longrightarrow> server_run es s = Some s' \<Longrightarrow> registry_inv s'"
proof (induction es arbitrary: s)
  case Nil
  then show ?case by simp
next
  case (Cons e es)
  then show ?case by (auto split: option.splits dest: registry_inv_step)
qed

lemma registry_inv_initial: "registry_inv initial_server"
  by (simp add: registry_inv_def initial_server_def)

lemma disconnect_command:
  assumes "server_run es initial_server = Some s" and "cmd_type d = Some ''disconnect''"
  shows "on_message cid (JsonValue d) s =
     s\<lparr>activeConnections := (activeConnections s)(cid := None),
       sftpClient := (sftpClient s)(cid := None),
       sent := sent s @ [(cid, empty_message\<lparr>msg_type := Some ''disconnect'',
                                 msg_message := Some ''Disconnected''\<rparr>)],
       remote := remote s @ (case sftpClient s cid of Some c \<Rightarrow> [(cid, ClientEnd c)] | None \<Rightarrow> [])\<rparr>"
proof -
  have inv: "registry_inv s" using registry_inv_run[OF registry_inv_initial assms(1)] .
  show ?thesis
  proof (cases "sftpClient s cid")
    case None
    with inv have "activeConnections s cid = None" by (auto simp: registry_inv_def)
    then have a: "(activeConnections s)(cid := None) = activeConnections s" by auto
    from None have b: "(sftpClient s)(cid := None) = sftpClient s" by auto
    show ?thesis using assms(2) None
      by (simp add: on_message_def try_message_def case_disconnect_def sendResponse_def a b
          empty_message_def)
  next
    case (Some c)
    then show ?thesis using assms(2)
      by (simp add: on_message_def try_message_def case_disconnect_def sendResponse_def
          call_remote_def empty_message_def)
  qed
qed

text \<open>
  Claim C4, as the code has it.  When the remote connection emits \<open>ready\<close> the registry
  gets the entry of the channel.  When it emits \<open>error\<close> a \<open>connect_error\<close> response is
  sent to the channel and the registry is left as it was: no entry is created, and an
  entry that exists stays.  When it emits \<open>end\<close> a disconnect notification is sent and
  the registry is left as it was.  When it emits \<open>close\<close> the entry of the channel is
  removed and a disconnect notification is sent to the channel.
\<close>

theorem remote_lifecycle_registry:
  "activeConnections (snd (on_ready cid s)) =
       (activeConnections s)(cid \<mapsto> \<lparr>session_client = sftpClient s cid, session_sftp = None\<rparr>)
   \<and> on_error cid err s =
       s\<lparr>sent := sent s @ [(cid, empty_message\<lparr>msg_type := Some ''connect_error'',
                                     msg_error := Some err\<rparr>)]\<rparr>
   \<and> on_end cid s =
       s\<lparr>sent := sent s @ [(cid, empty_message\<lparr>msg_type := Some ''disconnect'',
                                     msg_message := Some ''Connection ended''\<rparr>)]\<rparr>
   \<and> on_close cid s =
       s\<lparr>activeConnections := (activeConnections s)(cid := None),
         sent := sent s @ [(cid, empty_message\<lparr>msg_type := Some ''disconnect'',
                                     msg_message := Some ''Connection closed''\<rparr>)]\<rparr>"
  by (simp add: Let_def on_ready_def on_error_def on_end_def on_close_def sendResponse_def
      call_remote_def error_response_def empty_message_def split: option.split)

text \<open>
  Claim C4 as stated fails: after an accepted connect, the events \<open>end\<close> and \<open>error\<close>
  both leave the entry of the channel in the registry.
\<close>

theorem remote_end_keeps_entry:
  "map_option (\<lambda>s. activeConnections s ''c1'')
       (server_run (accepted_run @ [RemoteEnd ''c1'']) initial_server)
     = Some (Some \<lparr>session_client = Some 0, session_sftp = Some 0\<rparr>)
   \<and> map_option (\<lambda>s. activeConnections s ''c1'')
       (server_run (accepted_run @ [RemoteError ''c1'' ''read ECONNRESET'']) initial_server)
     = Some (Some \<lparr>session_client = Some 0, session_sftp = Some 0\<rparr>)"
  by (simp add: accepted_run_def on_message_def try_message_def case_connect_def on_ready_def
      on_sftp_def on_end_def on_error_def completed_def Let_def sendResponse_def call_remote_def
      error_response_def empty_message_def empty_command_def initial_server_def)

text \<open>
  Claim C5.  For a command of kind \<open>list_files\<close>, \<open>download_file\<close>, \<open>upload_file\<close>,
  \<open>delete_file\<close> or \<open>create_directory\<close>, when the channel has no registered session
  (no entry, or an entry without its SFTP handle), the dispatcher sends one \<open>error\<close>
  response to the channel and does nothing else: no call goes to the remote library,
  and the registry and the channel's client variable are unchanged.
\<close>

theorem no_session_error:
  assumes "cmd_type d \<in> Some ` {''list_files'', ''download_file'', ''upload_file'',
                                  ''delete_file'', ''create_directory''}"
      and "active_sftp s cid = None"
  shows "on_message cid (JsonValue d) s =
           s\<lparr>sent := sent s @ [(cid, empty_message\<lparr>msg_type := Some ''error'',
                                         msg_error := Some ''No active SFTP connection''\<rparr>)]\<rparr>
       \<and> remote (on_message cid (JsonValue d) s) = remote s
       \<and> activeConnections (on_message cid (JsonValue d) s) = activeConnections s
       \<and> sftpClient (on_message cid (JsonValue d) s) = sftpClient s"
  using assms
  by (auto simp: on_message_def try_message_def case_list_files_def case_download_file_def
      case_upload_file_def case_delete_file_def case_create_directory_def no_connection_def
      sendResponse_def error_response_def empty_message_def)

theorem no_session_error_witness:
  "on_message ''c1'' (JsonValue (empty_command\<lparr>cmd_type := Some ''list_files''\<rparr>)) initial_server =
     initial_server\<lparr>sent := [(''c1'', empty_message\<lparr>msg_type := Some ''error'',
                                       msg_error := Some ''No active SFTP connection''\<rparr>)]\<rparr>
   \<and> remote (on_message ''c1'' (JsonValue (empty_command\<lparr>cmd_type := Some ''list_files''\<rparr>))
         initial_server) = []"
  using no_session_error[of "empty_command\<lparr>cmd_type := Some ''list_files''\<rparr>" initial_server "''c1''"]
  by (simp add: active_sftp_def initial_server_def empty_command_def)

text \<open>
  Claim C7, as the code has it.  For a message whose \<open>type\<close> is none of the seven
  labels of the switch, the dispatcher sends one \<open>error\<close> response whose text is
  \<open>Unknown command\<close>, and changes nothing else.
\<close>

theorem unknown_command_response:
  assumes "cmd_type d \<notin> Some ` set command_kinds"
  shows "on_message cid (JsonValue d) s =
           s\<lparr>sent := sent s @ [(cid, empty_message\<lparr>msg_type := Some ''error'',
                                         msg_error := Some ''Unknown command''\<rparr>)]\<rparr>"
  using assms
  by (auto simp: on_message_def try_message_def command_kinds_def case_default_def
      sendResponse_def error_response_def empty_message_def)

theorem unknown_command_response_witness:
  "on_message ''c1'' (JsonValue (empty_command\<lparr>cmd_type := Some ''ping''\<rparr>)) initial_server =
     initial_server\<lparr>sent := [(''c1'', empty_message\<lparr>msg_type := Some ''error'',
                                       msg_error := Some ''Unknown command''\<rparr>)]\<rparr>"
  using unknown_command_response[of "empty_command\<lparr>cmd_type := Some ''ping''\<rparr>" "''c1''" initial_server]
  by (simp add: command_kinds_def initial_server_def empty_command_def)

text \<open>
  Claim C7 as stated fails on the text: the response to the unrecognized kind \<open>ping\<close>
  carries \<open>Unknown command\<close>, which is not the text \<open>unknown command\<close>.
\<close>

theorem unknown_command_text:
  "sent (on_message ''c1'' (JsonValue (empty_command\<lparr>cmd_type := Some ''ping''\<rparr>)) initial_server)
     = [(''c1'', empty_message\<lparr>msg_type := Some ''error'', msg_error := Some ''Unknown command''\<rparr>)]
   \<and> msg_error (snd (hd (sent (on_message ''c1''
        (JsonValue (empty_command\<lparr>cmd_type := Some ''ping''\<rparr>)) initial_server))))
       \<noteq> Some ''unknown command''"
  by (simp add: on_message_def try_message_def case_default_def sendResponse_def
      error_response_def empty_message_def empty_command_def initial_server_def)

text \<open>
  Claim C8.  A frame that \<open>JSON.parse\<close> rejects, or that parses to \<open>null\<close>, is answered
  with the generic error response and changes nothing else: the registry, with the
  sessions of every channel, is as before.  The handler returns a state for every
  frame, and whatever exception the body of its \<open>try\<close> throws is answered the same way.
\<close>

theorem malformed_message_answered:
  assumes "m = NotJson \<or> m = NullJson"
  shows "on_message cid m s =
           s\<lparr>sent := sent s @ [(cid, empty_message\<lparr>msg_type := Some ''error'',
                        msg_error := Some ''Invalid message format or server error''\<rparr>)]\<rparr>
       \<and> activeConnections (on_message cid m s) = activeConnections s
       \<and> (\<forall>m' e s'. try_message cid m' s = (Some e, s') \<longrightarrow>
             on_message cid m' s =
               s'\<lparr>sent := sent s' @ [(cid, empty_message\<lparr>msg_type := Some ''error'',
                        msg_error := Some ''Invalid message format or server error''\<rparr>)]\<rparr>)"
  using assms
  by (auto simp: on_message_def try_message_def sendResponse_def error_response_def
      empty_message_def)

theorem malformed_message_answered_witness:
  "on_message ''c1'' NotJson initial_server =
     initial_server\<lparr>sent := [(''c1'', empty_message\<lparr>msg_type := Some ''error'',
                        msg_error := Some ''Invalid message format or server error''\<rparr>)]\<rparr>
   \<and> activeConnections (on_message ''c1'' NotJson initial_server) = Map.empty"
  using malformed_message_answered[of NotJson "''c1''" initial_server]
  by (simp add: initial_server_def)


section \<open>The client: listeners, timeouts and promises\<close>

lemma call_handler_listeners [simp]:
  "eventListeners (snd (call_handler h d s)) = eventListeners s"
  by (cases h) (simp_all add: resolve_def reject_def clearTimeout_def split: option.split)

lemma call_handler_nextId [simp]: "nextId (snd (call_handler h d s)) = nextId s"
  by (cases h) (simp_all add: resolve_def reject_def clearTimeout_def split: option.split)

lemma on_listeners:
  "eventListeners (snd (on event cb s)) e =
     (case eventListeners s e of None \<Rightarrow> None
      | Some l \<Rightarrow> Some (if event = e then l @ [cb] else l))"
  by (cases "eventListeners s e"; cases "eventListeners s event")
     (auto simp: on_def lookup_listeners_def)

lemma off_listeners:
  "eventListeners (snd (off event cb s)) e =
     (case eventListeners s e of None \<Rightarrow> None
      | Some l \<Rightarrow> Some (if event = e then filter (\<lambda>c. c \<noteq> cb) l else l))"
  by (cases "eventListeners s e"; cases "eventListeners s event")
     (auto simp: off_def lookup_listeners_def)

lemma once_listeners:
  "eventListeners (snd (once event h s)) e =
     (case eventListeners s e of None \<Rightarrow> None
      | Some l \<Rightarrow> Some (if event = e then l @ [OnceCallback (nextId s) event h] else l))"
  by (simp add: once_def on_listeners)

lemma call_callback_listeners:
  "eventListeners (snd (call_callback cb d s)) e =
     (case eventListeners s e of None \<Rightarrow> None
      | Some l \<Rightarrow> Some (if unregisters cb e then filter (\<lambda>c. c \<noteq> cb) l else l))"
proof (cases cb)
  case (Plain h)
  then show ?thesis by (simp add: call_callback_def split: option.split)
next
  case (OnceCallback w event h)
  let ?s0 = "s\<lparr>invoked := invoked s @ [cb]\<rparr>"
  have o: "eventListeners (snd (off event cb ?s0)) e =
     (case eventListeners s e of None \<Rightarrow> None
      | Some l \<Rightarrow> Some (if event = e then filter (\<lambda>c. c \<noteq> cb) l else l))"
    by (simp add: off_listeners)
  show ?thesis
  proof (cases "off event cb ?s0")
    case (Pair err s1)
    then have "eventListeners (snd (call_callback cb d s)) e = eventListeners s1 e"
      using OnceCallback by (cases err) (simp_all add: call_callback_def)
    with o Pair OnceCallback show ?thesis by (simp split: option.split)
  qed
qed

lemma fold_callbacks_listeners:
  "eventListeners (foldl (\<lambda>st cb. snd (call_callback cb d st)) s cbs) e =
     (case eventListeners s e of None \<Rightarrow> None
      | Some l \<Rightarrow> Some (filter (\<lambda>c. \<not> (c \<in> set cbs \<and> unregisters c e)) l))"
proof (induction cbs arbitrary: s)
  case Nil
  then show ?case by (simp split: option.split)
next
  case (Cons cb cbs)
  show ?case
    by (auto simp: Cons call_callback_listeners split: option.split intro: filter_cong)
qed

lemma off_fields [simp]:
  "timers (snd (off event cb s)) = timers s"
  "settled (snd (off event cb s)) = settled s"
  "nextId (snd (off event cb s)) = nextId s"
  "isConnected (snd (off event cb s)) = isConnected s"
  "wsOpen (snd (off event cb s)) = wsOpen s"
  by (simp_all add: off_def split: slot.split)

lemma off_returns: "eventListeners s event \<noteq> None \<Longrightarrow> fst (off event cb s) = None"
  by (auto simp: off_def lookup_listeners_def)

lemma call_handler_timers:
  "timers (snd (call_handler h d s)) t = Some x \<Longrightarrow> timers s t = Some x"
  by (cases h) (auto simp: resolve_def reject_def clearTimeout_def split: option.splits if_splits)

lemma call_handler_settled:
  "\<exists>ext. settled (snd (call_handler h d s)) = settled s @ ext \<and> length ext \<le> 1
       \<and> (\<forall>x \<in> set ext. handler_request h = Some (fst x))"
  by (cases h) (auto simp: resolve_def reject_def clearTimeout_def split: option.splits)

lemma call_callback_unfold:
  "snd (call_callback cb d s) =
     (case cb of
        Plain h \<Rightarrow> snd (call_handler h d (s\<lparr>invoked := invoked s @ [cb]\<rparr>))
      | OnceCallback w event h \<Rightarrow>
          if fst (off event cb (s\<lparr>invoked := invoked s @ [cb]\<rparr>)) = None
          then snd (call_handler h d (snd (off event cb (s\<lparr>invoked := invoked s @ [cb]\<rparr>))))
          else snd (off event cb (s\<lparr>invoked := invoked s @ [cb]\<rparr>)))"
  by (cases cb; cases "off (case cb of OnceCallback w event h \<Rightarrow> event | _ \<Rightarrow> []) cb (s\<lparr>invoked := invoked s @ [cb]\<rparr>)")
     (auto simp: call_callback_def split: option.splits)

lemma call_callback_nextId [simp]: "nextId (snd (call_callback cb d s)) = nextId s"
  by (simp add: call_callback_unfold split: callback.split)

lemma call_callback_timers:
  "timers (snd (call_callback cb d s)) t = Some x \<Longrightarrow> timers s t = Some x"
  by (auto simp: call_callback_unfold split: callback.splits if_splits dest!: call_handler_timers)

lemma call_callback_settled:
  "\<exists>ext. settled (snd (call_callback cb d s)) = settled s @ ext \<and> length ext \<le> 1
       \<and> (\<forall>x \<in> set ext. callback_request cb = Some (fst x))"
proof (cases cb)
  case (Plain h)
  then show ?thesis
    using call_handler_settled[of h d "s\<lparr>invoked := invoked s @ [cb]\<rparr>"]
    by (simp add: call_callback_unfold)
next
  case (OnceCallback w event h)
  show ?thesis
  proof (cases "fst (off event cb (s\<lparr>invoked := invoked s @ [cb]\<rparr>)) = None")
    case True
    then show ?thesis
      using call_handler_settled[of h d "snd (off event cb (s\<lparr>invoked := invoked s @ [cb]\<rparr>))"] OnceCallback
      by (simp add: call_callback_unfold)
  next
    case False
    then show ?thesis using OnceCallback by (auto simp: call_callback_unfold)
  qed
qed

lemma fold_callbacks_nextId [simp]:
  "nextId (foldl (\<lambda>st cb. snd (call_callback cb d st)) s cbs) = nextId s"
  by (induction cbs arbitrary: s) simp_all

lemma fold_callbacks_timers:
  "timers (foldl (\<lambda>st cb. snd (call_callback cb d st)) s cbs) t = Some x \<Longrightarrow> timers s t = Some x"
  by (induction cbs arbitrary: s) (auto dest: call_callback_timers)

lemma fold_callbacks_settled:
  "\<exists>ext. settled (foldl (\<lambda>st cb. snd (call_callback cb d st)) s cbs) = settled s @ ext
     \<and> (\<forall>x \<in> set ext. \<exists>c \<in> set cbs. callback_request c = Some (fst x))
     \<and> (\<forall>r. length (filter (\<lambda>x. fst x = r) ext)
             \<le> length (filter (\<lambda>c. callback_request c = Some r) cbs))"
proof (induction cbs arbitrary: s)
  case Nil
  then show ?case by simp
next
  case (Cons cb cbs)
  obtain e1 where e1: "settled (snd (call_callback cb d s)) = settled s @ e1" "length e1 \<le> 1"
      "\<forall>x \<in> set e1. callback_request cb = Some (fst x)"
    using call_callback_settled[of cb d s] by blast
  obtain e2 where e2:
      "settled (foldl (\<lambda>st cb. snd (call_callback cb d st)) (snd (call_callback cb d s)) cbs)
         = settled (snd (call_callback cb d s)) @ e2"
      "\<forall>x \<in> set e2. \<exists>c \<in> set cbs. callback_request c = Some (fst x)"
      "\<forall>r. length (filter (\<lambda>x. fst x = r) e2) \<le> length (filter (\<lambda>c. callback_request c = Some r) cbs)"
    using Cons[of "snd (call_callback cb d s)"] by blast
  have c1: "\<And>r. length (filter (\<lambda>x. fst x = r) e1) \<le> (if callback_request cb = Some r then 1 else 0)"
  proof -
    fix r
    show "length (filter (\<lambda>x. fst x = r) e1) \<le> (if callback_request cb = Some r then 1 else 0)"
    proof (cases "callback_request cb = Some r")
      case True
      have "length (filter (\<lambda>x. fst x = r) e1) \<le> 1"
        by (rule le_trans[OF length_filter_le e1(2)])
      with True show ?thesis by simp
    next
      case False
      with e1(3) have "filter (\<lambda>x. fst x = r) e1 = []" by (auto simp: filter_empty_conv)
      then show ?thesis by simp
    qed
  qed
  show ?case
  proof (intro exI[of _ "e1 @ e2"] conjI allI ballI)
    show "settled (foldl (\<lambda>st cb. snd (call_callback cb d st)) s (cb # cbs)) = settled s @ e1 @ e2"
      using e1(1) e2(1) by simp
  next
    fix x assume "x \<in> set (e1 @ e2)"
    then show "\<exists>c \<in> set (cb # cbs). callback_request c = Some (fst x)"
      using e1(3) e2(2) by auto
  next
    fix r
    show "length (filter (\<lambda>x. fst x = r) (e1 @ e2))
            \<le> length (filter (\<lambda>c. callback_request c = Some r) (cb # cbs))"
      using c1[of r] e2(3)[rule_format, of r] by (auto split: if_splits)
  qed
qed

lemma fold_callbacks_keys:
  "(eventListeners (foldl (\<lambda>st cb. snd (call_callback cb d st)) s cbs) e = None)
     = (eventListeners s e = None)"
  by (simp add: fold_callbacks_listeners split: option.split)

section \<open>The client: what every step preserves\<close>

lemma evolvesI:
  assumes "nextId s \<le> nextId s'"
    and "\<And>e. (eventListeners s' e = None) = (eventListeners s e = None)"
    and "\<And>e l l' c. eventListeners s e = Some l \<Longrightarrow> eventListeners s' e = Some l' \<Longrightarrow> c \<in> set l' \<Longrightarrow>
          c \<in> set l \<or> (\<forall>r. callback_request c = Some r \<longrightarrow> nextId s \<le> r \<and> r < nextId s')"
    and "\<And>e l l' r. eventListeners s e = Some l \<Longrightarrow> eventListeners s' e = Some l' \<Longrightarrow> r < nextId s \<Longrightarrow>
          length (filter (\<lambda>c. callback_request c = Some r) l')
            \<le> length (filter (\<lambda>c. callback_request c = Some r) l)"
    and "\<And>t x. timers s' t = Some x \<Longrightarrow> timers s t = Some x \<or> (nextId s \<le> t \<and> t < nextId s')"
    and "settled s' = settled s @ ext"
    and "\<And>x. x \<in> set ext \<Longrightarrow>
          timers s (fst x) \<noteq> None
        \<or> (\<exists>e l c. eventListeners s e = Some l \<and> c \<in> set l \<and> callback_request c = Some (fst x))
        \<or> (nextId s \<le> fst x \<and> fst x < nextId s')"
  shows "evolves s s'"
  unfolding evolves_def
  apply (intro conjI)
       apply (rule assms(1))
      apply (simp add: assms(2))
     apply (intro allI impI, erule (2) assms(3))
    apply (intro allI impI, erule (2) assms(4))
   apply (intro allI impI, erule assms(5))
  apply (rule exI[of _ ext], rule conjI, rule assms(6))
  apply (rule ballI, erule assms(7))
  done

lemma evolves_nextId: "evolves s s' \<Longrightarrow> nextId s \<le> nextId s'"
  by (simp add: evolves_def)

lemma evolves_keys: "evolves s s' \<Longrightarrow> (eventListeners s' e = None) = (eventListeners s e = None)"
  by (simp add: evolves_def)

lemma evolves_member:
  "evolves s s' \<Longrightarrow> eventListeners s e = Some l \<Longrightarrow> eventListeners s' e = Some l' \<Longrightarrow> c \<in> set l' \<Longrightarrow>
     c \<in> set l \<or> (\<forall>r. callback_request c = Some r \<longrightarrow> nextId s \<le> r \<and> r < nextId s')"
  unfolding evolves_def by (elim conjE allE[of _ e] allE[of _ l] allE[of _ l'] allE[of _ c] impE) assumption+

lemma evolves_count:
  "evolves s s' \<Longrightarrow> eventListeners s e = Some l \<Longrightarrow> eventListeners s' e = Some l' \<Longrightarrow> r < nextId s \<Longrightarrow>
     length (filter (\<lambda>c. callback_request c = Some r) l')
       \<le> length (filter (\<lambda>c. callback_request c = Some r) l)"
  by (simp add: evolves_def)

lemma evolves_timers:
  "evolves s s' \<Longrightarrow> timers s' t = Some x \<Longrightarrow> timers s t = Some x \<or> (nextId s \<le> t \<and> t < nextId s')"
  by (simp add: evolves_def)

lemma evolves_settled:
  "evolves s s' \<Longrightarrow> \<exists>ext. settled s' = settled s @ ext \<and> (\<forall>x \<in> set ext.
          timers s (fst x) \<noteq> None
        \<or> (\<exists>e l c. eventListeners s e = Some l \<and> c \<in> set l \<and> callback_request c = Some (fst x))
        \<or> (nextId s \<le> fst x \<and> fst x < nextId s'))"
  by (simp add: evolves_def)

lemma evolves_some:
  "evolves s s' \<Longrightarrow> eventListeners s' e = Some l' \<Longrightarrow> \<exists>l. eventListeners s e = Some l"
  using evolves_keys[of s s' e] by (cases "eventListeners s e") auto

lemma client_invD:
  assumes "client_inv s"
  shows "dom (eventListeners s) = set constructor_keys"
    and "\<And>e l c r. eventListeners s e = Some l \<Longrightarrow> c \<in> set l \<Longrightarrow> callback_request c = Some r \<Longrightarrow> r < nextId s"
    and "\<And>t x. timers s t = Some x \<Longrightarrow> t < nextId s"
    and "\<And>x. x \<in> set (settled s) \<Longrightarrow> fst x < nextId s"
  using assms unfolding client_inv_def by blast+

lemma client_invI:
  assumes "dom (eventListeners s) = set constructor_keys"
    and "\<And>e l c r. eventListeners s e = Some l \<Longrightarrow> c \<in> set l \<Longrightarrow> callback_request c = Some r \<Longrightarrow> r < nextId s"
    and "\<And>t x. timers s t = Some x \<Longrightarrow> t < nextId s"
    and "\<And>x. x \<in> set (settled s) \<Longrightarrow> fst x < nextId s"
  shows "client_inv s"
  unfolding client_inv_def using assms by blast

lemma evolves_inv:
  assumes inv: "client_inv s" and ev: "evolves s s'"
  shows "client_inv s'"
proof (rule client_invI)
  have "dom (eventListeners s') = dom (eventListeners s)"
    using evolves_keys[OF ev] by (auto simp: dom_def)
  then show "dom (eventListeners s') = set constructor_keys"
    using client_invD(1)[OF inv] by simp
next
  fix e l' c r
  assume a: "eventListeners s' e = Some l'" "c \<in> set l'" "callback_request c = Some r"
  from evolves_some[OF ev a(1)] obtain l where l: "eventListeners s e = Some l" by blast
  from evolves_member[OF ev l a(1) a(2)] a(3)
  have "c \<in> set l \<or> (nextId s \<le> r \<and> r < nextId s')" by blast
  then show "r < nextId s'"
  proof
    assume "c \<in> set l"
    then have "r < nextId s" using client_invD(2)[OF inv l _ a(3)] by blast
    with evolves_nextId[OF ev] show ?thesis by simp
  qed simp
next
  fix t x assume "timers s' t = Some x"
  from evolves_timers[OF ev this] show "t < nextId s'"
  proof
    assume "timers s t = Some x"
    then have "t < nextId s" by (rule client_invD(3)[OF inv])
    with evolves_nextId[OF ev] show ?thesis by simp
  qed simp
next
  fix y assume y: "y \<in> set (settled s')"
  from evolves_settled[OF ev] obtain ext where e: "settled s' = settled s @ ext"
    and x: "\<forall>x \<in> set ext.
          timers s (fst x) \<noteq> None
        \<or> (\<exists>e l c. eventListeners s e = Some l \<and> c \<in> set l \<and> callback_request c = Some (fst x))
        \<or> (nextId s \<le> fst x \<and> fst x < nextId s')" by blast
  from y e have "y \<in> set (settled s) \<or> y \<in> set ext" by auto
  then show "fst y < nextId s'"
  proof
    assume "y \<in> set (settled s)"
    then have "fst y < nextId s" by (rule client_invD(4)[OF inv])
    with evolves_nextId[OF ev] show ?thesis by simp
  next
    assume "y \<in> set ext"
    with x have "timers s (fst y) \<noteq> None
        \<or> (\<exists>e l c. eventListeners s e = Some l \<and> c \<in> set l \<and> callback_request c = Some (fst y))
        \<or> (nextId s \<le> fst y \<and> fst y < nextId s')" by (rule bspec)
    then show ?thesis
    proof (elim disjE exE conjE)
      assume "timers s (fst y) \<noteq> None"
      then obtain z where "timers s (fst y) = Some z" by auto
      then have "fst y < nextId s" by (rule client_invD(3)[OF inv])
      with evolves_nextId[OF ev] show ?thesis by simp
    next
      fix e l c
      assume "eventListeners s e = Some l" "c \<in> set l" "callback_request c = Some (fst y)"
      then have "fst y < nextId s" by (rule client_invD(2)[OF inv])
      with evolves_nextId[OF ev] show ?thesis by simp
    next
      assume "fst y < nextId s'"
      then show ?thesis .
    qed
  qed
qed

lemma evolves_refl: "evolves s s"
  by (rule evolvesI[where ext = "[]"]) simp_all

lemma evolves_cong:
  "eventListeners s0 = eventListeners s \<Longrightarrow> timers s0 = timers s \<Longrightarrow> settled s0 = settled s \<Longrightarrow>
     nextId s0 = nextId s \<Longrightarrow> evolves s0 s' = evolves s s'"
  by (simp add: evolves_def)

lemma evolves_cong2:
  "eventListeners s1 = eventListeners s' \<Longrightarrow> timers s1 = timers s' \<Longrightarrow> settled s1 = settled s' \<Longrightarrow>
     nextId s1 = nextId s' \<Longrightarrow> evolves s s1 = evolves s s'"
  by (simp add: evolves_def)

lemma filter_filter_length:
  "length (filter P (filter Q l)) \<le> length (filter P l)"
  by (induction l) auto

lemma filter_conj_length:
  "length (filter (\<lambda>x. Q x \<and> P x) l) \<le> length (filter P l)"
  by (induction l) auto

lemma once_fields2 [simp]:
  "wsOpen (snd (once event h s)) = wsOpen s"
  "isConnected (snd (once event h s)) = isConnected s"
  "outbox (snd (once event h s)) = outbox s"
  by (simp_all add: once_def on_def split: slot.split)

lemma fold_evolves:
  assumes "eventListeners s e0 = Some cbs'" and "set cbs \<subseteq> set cbs'"
  shows "evolves s (foldl (\<lambda>st cb. snd (call_callback cb d st)) s cbs)"
proof -
  let ?s' = "foldl (\<lambda>st cb. snd (call_callback cb d st)) s cbs"
  from fold_callbacks_settled[of d s cbs] obtain ext where
    e: "settled ?s' = settled s @ ext"
    and m: "\<forall>x \<in> set ext. \<exists>c \<in> set cbs. callback_request c = Some (fst x)" by blast
  show ?thesis
  proof (rule evolvesI[where ext = ext])
    show "nextId s \<le> nextId ?s'" by simp
    show "\<And>e. (eventListeners ?s' e = None) = (eventListeners s e = None)"
      by (rule fold_callbacks_keys)
    show "settled ?s' = settled s @ ext" by (rule e)
  next
    fix e l l' c
    assume a: "eventListeners s e = Some l" "eventListeners ?s' e = Some l'" "c \<in> set l'"
    from a(1) a(2) have "l' = filter (\<lambda>c. \<not> (c \<in> set cbs \<and> unregisters c e)) l"
      by (simp add: fold_callbacks_listeners)
    with a(3) show "c \<in> set l \<or> (\<forall>r. callback_request c = Some r \<longrightarrow> nextId s \<le> r \<and> r < nextId ?s')"
      by simp
  next
    fix e l l' r
    assume a: "eventListeners s e = Some l" "eventListeners ?s' e = Some l'"
    from a(1) a(2) have "l' = filter (\<lambda>c. \<not> (c \<in> set cbs \<and> unregisters c e)) l"
      by (simp add: fold_callbacks_listeners)
    then show "length (filter (\<lambda>c. callback_request c = Some r) l')
            \<le> length (filter (\<lambda>c. callback_request c = Some r) l)"
      by (simp only: filter_filter_length)
  next
    fix t x assume "timers ?s' t = Some x"
    then have "timers s t = Some x" by (rule fold_callbacks_timers)
    then show "timers s t = Some x \<or> (nextId s \<le> t \<and> t < nextId ?s')" ..
  next
    fix x assume "x \<in> set ext"
    with m obtain c where c: "c \<in> set cbs" "callback_request c = Some (fst x)" by blast
    with assms have "eventListeners s e0 = Some cbs' \<and> c \<in> set cbs' \<and> callback_request c = Some (fst x)"
      by auto
    then show "timers s (fst x) \<noteq> None
        \<or> (\<exists>e l c. eventListeners s e = Some l \<and> c \<in> set l \<and> callback_request c = Some (fst x))
        \<or> (nextId s \<le> fst x \<and> fst x < nextId ?s')" by blast
  qed
qed

lemma emitEvent_cases:
  "(\<exists>cbs. eventListeners s e = Some cbs
        \<and> snd (emitEvent e d s) = foldl (\<lambda>st cb. snd (call_callback cb d st)) s cbs)
   \<or> (eventListeners s e = None \<and> snd (emitEvent e d s) = s)"
  by (cases "eventListeners s e") (auto simp: emitEvent_def lookup_listeners_def)

lemma emitEvent_evolves: "evolves s (snd (emitEvent e d s))"
  using emitEvent_cases[of s e d] evolves_refl[of s] fold_evolves[of s e _ _ d]
  by (metis subset_refl)

lemma handleMessage_evolves: "evolves s (handleMessage f s)"
  by (cases f) (simp_all add: handleMessage_def evolves_refl emitEvent_evolves)

lemma fire_timeout_evolves: "evolves s (fire_timeout t s)"
proof (cases "timers s t")
  case None
  then show ?thesis by (simp add: fire_timeout_def evolves_refl)
next
  case (Some msg)
  show ?thesis
    by (rule evolvesI[where ext = "[(t, Rejected (Error msg))]"])
       (auto simp: fire_timeout_def reject_def Some split: if_splits)
qed

lemma ws_onclose_evolves: "evolves s (ws_onclose s)"
proof -
  let ?s0 = "s\<lparr>wsOpen := False, isConnected := False, connectionId := None\<rparr>"
  have "evolves ?s0 (ws_onclose s)" unfolding ws_onclose_def by (rule emitEvent_evolves)
  then show ?thesis by (simp add: evolves_cong[of ?s0 s])
qed

lemma once_fst: "event \<notin> set object_prototype_names \<Longrightarrow> fst (once event h s) = None"
  by (simp add: once_def on_def lookup_listeners_def split: option.split)

lemma once_fields [simp]:
  "timers (snd (once event h s)) = timers s"
  "settled (snd (once event h s)) = settled s"
  "nextId (snd (once event h s)) = Suc (nextId s)"
  by (simp_all add: once_def on_def split: slot.split)

lemma and_then_alt:
  "and_then res f = (case fst res of None \<Rightarrow> f (snd res) | Some e \<Rightarrow> (Some e, snd res))"
  by (cases res) (simp add: and_then_def split: option.split)

lemma executor_alt:
  "executor r res = (case fst res of None \<Rightarrow> snd res | Some e \<Rightarrow> reject r e (snd res))"
  by (cases res) (simp add: executor_def split: option.split)

lemma frame_only_sendMessage: "frame_only (sendMessage m)"
  by (simp add: frame_only_def sendMessage_def)

lemma request_exec_fields:
  assumes np: "sk \<notin> set object_prototype_names" "ek \<notin> set object_prototype_names"
    and fr: "frame_only body"
  shows "eventListeners (request_exec r sk h1 ek h2 tmsg body s0) e =
           (case eventListeners s0 e of None \<Rightarrow> None
            | Some l \<Rightarrow> Some (l @ (if sk = e then [OnceCallback (nextId s0) sk h1] else [])
                               @ (if ek = e then [OnceCallback (Suc (nextId s0)) ek h2] else [])))"
    and "timers (request_exec r sk h1 ek h2 tmsg body s0) = (timers s0)(r \<mapsto> tmsg)"
    and "nextId (request_exec r sk h1 ek h2 tmsg body s0) = Suc (Suc (nextId s0))"
    and "\<exists>ext. settled (request_exec r sk h1 ek h2 tmsg body s0) = settled s0 @ ext
            \<and> (\<forall>x \<in> set ext. fst x = r)"
proof -
  let ?s1 = "setTimeout r tmsg s0"
  let ?s2 = "snd (once sk h1 ?s1)"
  let ?s3 = "snd (once ek h2 ?s2)"
  let ?s4 = "snd (body ?s3)"
  have ex: "request_exec r sk h1 ek h2 tmsg body s0 =
      (case fst (body ?s3) of None \<Rightarrow> ?s4 | Some e \<Rightarrow> reject r e ?s4)"
    by (simp add: request_exec_def executor_alt and_then_alt once_fst[OF np(1)] once_fst[OF np(2)]
        split: option.split)
  from fr have f4: "eventListeners ?s4 = eventListeners ?s3" "timers ?s4 = timers ?s3"
    "nextId ?s4 = nextId ?s3" "settled ?s4 = settled ?s3"
    by (simp_all add: frame_only_def)
  have l3: "eventListeners ?s3 e =
           (case eventListeners s0 e of None \<Rightarrow> None
            | Some l \<Rightarrow> Some (l @ (if sk = e then [OnceCallback (nextId s0) sk h1] else [])
                               @ (if ek = e then [OnceCallback (Suc (nextId s0)) ek h2] else [])))"
    by (simp add: once_listeners setTimeout_def split: option.split)
  have el: "eventListeners (request_exec r sk h1 ek h2 tmsg body s0) = eventListeners ?s3"
    unfolding ex using f4(1) by (cases "fst (body ?s3)") (simp_all add: reject_def)
  have tl: "timers (request_exec r sk h1 ek h2 tmsg body s0) = timers ?s3"
    unfolding ex using f4(2) by (cases "fst (body ?s3)") (simp_all add: reject_def)
  have nl: "nextId (request_exec r sk h1 ek h2 tmsg body s0) = nextId ?s3"
    unfolding ex using f4(3) by (cases "fst (body ?s3)") (simp_all add: reject_def)
  show "eventListeners (request_exec r sk h1 ek h2 tmsg body s0) e =
           (case eventListeners s0 e of None \<Rightarrow> None
            | Some l \<Rightarrow> Some (l @ (if sk = e then [OnceCallback (nextId s0) sk h1] else [])
                               @ (if ek = e then [OnceCallback (Suc (nextId s0)) ek h2] else [])))"
    unfolding el by (rule l3)
  show "timers (request_exec r sk h1 ek h2 tmsg body s0) = (timers s0)(r \<mapsto> tmsg)"
    unfolding tl by (simp add: setTimeout_def)
  show "nextId (request_exec r sk h1 ek h2 tmsg body s0) = Suc (Suc (nextId s0))"
    unfolding nl by (simp add: setTimeout_def)
  show "\<exists>ext. settled (request_exec r sk h1 ek h2 tmsg body s0) = settled s0 @ ext
            \<and> (\<forall>x \<in> set ext. fst x = r)"
  proof (cases "fst (body ?s3)")
    case None
    then have "settled (request_exec r sk h1 ek h2 tmsg body s0) = settled s0 @ []"
      unfolding ex using f4(4) by (simp add: setTimeout_def)
    then show ?thesis by (intro exI[of _ "[]"]) simp
  next
    case (Some err)
    then have "settled (request_exec r sk h1 ek h2 tmsg body s0) = settled s0 @ [(r, Rejected err)]"
      unfolding ex using f4(4) by (simp add: setTimeout_def reject_def)
    then show ?thesis by (intro exI[of _ "[(r, Rejected err)]"]) simp
  qed
qed

lemma request_exec_evolves:
  assumes eq: "eventListeners s0 = eventListeners s" "timers s0 = timers s" "settled s0 = settled s"
      "nextId s0 = Suc (nextId s)"
    and r: "r = nextId s" "handler_request h1 = Some r" "handler_request h2 = Some r"
    and np: "sk \<notin> set object_prototype_names" "ek \<notin> set object_prototype_names"
    and fr: "frame_only body"
  shows "evolves s (request_exec r sk h1 ek h2 tmsg body s0)"
proof -
  let ?s' = "request_exec r sk h1 ek h2 tmsg body s0"
  note f = request_exec_fields[OF np fr, of r h1 h2 tmsg s0]
  from f(4) obtain ext where e: "settled ?s' = settled s0 @ ext" and x: "\<forall>x \<in> set ext. fst x = r"
    by blast
  have n': "nextId ?s' = Suc (Suc (Suc (nextId s)))" by (simp only: f(3) eq(4))
  have fresh: "nextId s \<le> r \<and> r < nextId ?s'" unfolding n' by (simp add: r(1))
  show ?thesis
  proof (rule evolvesI[where ext = ext])
    show "nextId s \<le> nextId ?s'" unfolding n' by simp
    show "\<And>e. (eventListeners ?s' e = None) = (eventListeners s e = None)"
      by (simp add: f(1) eq(1) split: option.split)
    show "settled ?s' = settled s @ ext" using e eq(3) by simp
  next
    fix e l l' c
    assume a: "eventListeners s e = Some l" "eventListeners ?s' e = Some l'" "c \<in> set l'"
    from a(1) a(2) have l': "l' = l @ (if sk = e then [OnceCallback (nextId s0) sk h1] else [])
                               @ (if ek = e then [OnceCallback (Suc (nextId s0)) ek h2] else [])"
      by (simp add: f(1) eq(1))
    from a(3) have "c \<in> set l \<or> callback_request c = Some r"
      unfolding l' using r(2) r(3) by (auto split: if_splits)
    with fresh show "c \<in> set l \<or> (\<forall>q. callback_request c = Some q \<longrightarrow> nextId s \<le> q \<and> q < nextId ?s')"
      by auto
  next
    fix e l l' q
    assume a: "eventListeners s e = Some l" "eventListeners ?s' e = Some l'" "q < nextId s"
    from a(1) a(2) have l': "l' = l @ (if sk = e then [OnceCallback (nextId s0) sk h1] else [])
                               @ (if ek = e then [OnceCallback (Suc (nextId s0)) ek h2] else [])"
      by (simp add: f(1) eq(1))
    from a(3) have "q \<noteq> r" using r(1) by simp
    then have "filter (\<lambda>c. callback_request c = Some q) l' = filter (\<lambda>c. callback_request c = Some q) l"
      unfolding l' using r(2) r(3) by auto
    then show "length (filter (\<lambda>c. callback_request c = Some q) l')
            \<le> length (filter (\<lambda>c. callback_request c = Some q) l)" by simp
  next
    fix t x assume "timers ?s' t = Some x"
    then have "t = r \<or> timers s t = Some x" by (auto simp: f(2) eq(2) split: if_splits)
    with fresh show "timers s t = Some x \<or> (nextId s \<le> t \<and> t < nextId ?s')" by auto
  next
    fix y assume "y \<in> set ext"
    with x have "fst y = r" by blast
    with fresh show "timers s (fst y) \<noteq> None
        \<or> (\<exists>e l c. eventListeners s e = Some l \<and> c \<in> set l \<and> callback_request c = Some (fst y))
        \<or> (nextId s \<le> fst y \<and> fst y < nextId ?s')"
      by simp
  qed
qed

lemma evolves_promise:
  assumes ev: "evolves s0 s1"
    and eq: "eventListeners s0 = eventListeners s" "timers s0 = timers s" "settled s0 = settled s"
      "nextId s0 = Suc (nextId s)"
    and s2: "eventListeners s2 = eventListeners s1" "timers s2 = timers s1" "nextId s2 = nextId s1"
      "settled s2 = settled s1 @ extra" "\<forall>x \<in> set extra. fst x = nextId s"
  shows "evolves s s2"
proof -
  from evolves_settled[OF ev] obtain ext where e: "settled s1 = settled s0 @ ext"
    and x: "\<forall>x \<in> set ext.
          timers s0 (fst x) \<noteq> None
        \<or> (\<exists>e l c. eventListeners s0 e = Some l \<and> c \<in> set l \<and> callback_request c = Some (fst x))
        \<or> (nextId s0 \<le> fst x \<and> fst x < nextId s1)" by blast
  have n: "Suc (nextId s) \<le> nextId s1" using evolves_nextId[OF ev] eq(4) by simp
  show ?thesis
  proof (rule evolvesI[where ext = "ext @ extra"])
    show "nextId s \<le> nextId s2" using n s2(3) by simp
    show "\<And>e. (eventListeners s2 e = None) = (eventListeners s e = None)"
      using evolves_keys[OF ev] eq(1) s2(1) by simp
    show "settled s2 = settled s @ ext @ extra" using e s2(4) eq(3) by simp
  next
    fix e l l' c
    assume a: "eventListeners s e = Some l" "eventListeners s2 e = Some l'" "c \<in> set l'"
    from evolves_member[OF ev, of e l l' c] a eq(1) s2(1)
    have "c \<in> set l \<or> (\<forall>r. callback_request c = Some r \<longrightarrow> nextId s0 \<le> r \<and> r < nextId s1)"
      by simp
    then show "c \<in> set l \<or> (\<forall>r. callback_request c = Some r \<longrightarrow> nextId s \<le> r \<and> r < nextId s2)"
      using eq(4) s2(3) by auto
  next
    fix e l l' r
    assume a: "eventListeners s e = Some l" "eventListeners s2 e = Some l'" "r < nextId s"
    from evolves_count[OF ev, of e l l' r] a eq(1) eq(4) s2(1)
    show "length (filter (\<lambda>c. callback_request c = Some r) l')
            \<le> length (filter (\<lambda>c. callback_request c = Some r) l)" by simp
  next
    fix t x assume "timers s2 t = Some x"
    with evolves_timers[OF ev, of t x] s2(2)
    have "timers s0 t = Some x \<or> (nextId s0 \<le> t \<and> t < nextId s1)" by simp
    then show "timers s t = Some x \<or> (nextId s \<le> t \<and> t < nextId s2)"
      using eq(2) eq(4) s2(3) by auto
  next
    fix y assume "y \<in> set (ext @ extra)"
    then have "y \<in> set ext \<or> y \<in> set extra" by simp
    then show "timers s (fst y) \<noteq> None
        \<or> (\<exists>e l c. eventListeners s e = Some l \<and> c \<in> set l \<and> callback_request c = Some (fst y))
        \<or> (nextId s \<le> fst y \<and> fst y < nextId s2)"
    proof
      assume "y \<in> set ext"
      with x have "timers s0 (fst y) \<noteq> None
        \<or> (\<exists>e l c. eventListeners s0 e = Some l \<and> c \<in> set l \<and> callback_request c = Some (fst y))
        \<or> (nextId s0 \<le> fst y \<and> fst y < nextId s1)" by (rule bspec)
      then show ?thesis using eq(1) eq(2) eq(4) s2(3) by auto
    next
      assume "y \<in> set extra"
      with s2(5) have "fst y = nextId s" by blast
      then show ?thesis using n s2(3) by simp
    qed
  qed
qed

lemma new_promise_fields [simp]:
  "eventListeners (new_promise s) = eventListeners s"
  "timers (new_promise s) = timers s"
  "settled (new_promise s) = settled s"
  "nextId (new_promise s) = Suc (nextId s)"
  "isConnected (new_promise s) = isConnected s"
  "wsOpen (new_promise s) = wsOpen s"
  by (simp_all add: new_promise_def)

lemma settle_new_evolves:
  "evolves s (reject (nextId s) e (new_promise s))"
  "evolves s (resolve (nextId s) v (new_promise s))"
  by (rule evolves_promise[OF evolves_refl[of "new_promise s"], where extra = "[(nextId s, Rejected e)]"],
      simp_all add: reject_def)
     (rule evolves_promise[OF evolves_refl[of "new_promise s"], where extra = "[(nextId s, Resolved v)]"],
      simp_all add: resolve_def)

lemma listFiles_shape:
  "listFiles path s =
     (if \<not> isConnected s then reject (nextId s) not_connected (new_promise s)
      else request_exec (nextId s) ''file_list'' (OnFileList (nextId s)) ''error''
             (OnError (nextId s) ''Failed to list files'') ''List files operation timed out''
             (sendMessage (empty_command\<lparr>cmd_type := Some ''list_files'', cmd_path := Some path\<rparr>))
             (new_promise s))"
  by (simp add: listFiles_def request_exec_def Let_def)

lemma downloadFile_shape:
  "downloadFile remotePath s =
     (if \<not> isConnected s then reject (nextId s) not_connected (new_promise s)
      else request_exec (nextId s) ''file_content'' (OnFileContent (nextId s)) ''error''
             (OnError (nextId s) ''Failed to download file'') ''Download operation timed out''
             (sendMessage (empty_command\<lparr>cmd_type := Some ''download_file'',
                cmd_remotePath := Some remotePath\<rparr>))
             (new_promise s))"
  by (simp add: downloadFile_def request_exec_def Let_def)

lemma uploadFile_shape:
  "uploadFile maxArguments remotePath content s =
     (if \<not> isConnected s then reject (nextId s) not_connected (new_promise s)
      else request_exec (nextId s) ''upload_success'' (OnUploadSuccess (nextId s)) ''error''
             (OnError (nextId s) ''Failed to upload file'') ''Upload operation timed out''
             (\<lambda>s1. case encode_content maxArguments content of
                    Inl e \<Rightarrow> (Some e, s1)
                  | Inr base64Content \<Rightarrow>
                      sendMessage (empty_command\<lparr>cmd_type := Some ''upload_file'',
                        cmd_remotePath := Some remotePath,
                        cmd_content := Some base64Content\<rparr>) s1)
             (new_promise s))"
  by (simp add: uploadFile_def request_exec_def Let_def)

lemma deleteFile_shape:
  "deleteFile path isDirectory s =
     (if \<not> isConnected s then reject (nextId s) not_connected (new_promise s)
      else request_exec (nextId s) ''delete_success'' (OnDeleteSuccess (nextId s)) ''error''
             (OnError (nextId s) ''Failed to delete file'') ''Delete operation timed out''
             (sendMessage (empty_command\<lparr>cmd_type := Some ''delete_file'', cmd_path := Some path,
                cmd_isDirectory := Some isDirectory\<rparr>))
             (new_promise s))"
  by (simp add: deleteFile_def request_exec_def Let_def)

lemma createDirectory_shape:
  "createDirectory path s =
     (if \<not> isConnected s then reject (nextId s) not_connected (new_promise s)
      else request_exec (nextId s) ''mkdir_success'' (OnMkdirSuccess (nextId s)) ''error''
             (OnError (nextId s) ''Failed to create directory'')
             ''Create directory operation timed out''
             (sendMessage (empty_command\<lparr>cmd_type := Some ''create_directory'',
                cmd_path := Some path\<rparr>))
             (new_promise s))"
  by (simp add: createDirectory_def request_exec_def Let_def)

lemma connect_request_shape:
  "connect_request r c s0 =
     request_exec r ''connect_success'' (OnConnectSuccess r) ''connect_error'' (OnConnectError r)
       ''Connection timed out'' (sendMessage (connect_command c)) s0"
  by (simp add: connect_request_def request_exec_def)

lemma frame_only_upload:
  "frame_only (\<lambda>s1. case encode_content maxArguments content of
                    Inl e \<Rightarrow> (Some e, s1)
                  | Inr base64Content \<Rightarrow> sendMessage (m base64Content) s1)"
  by (simp add: frame_only_def sendMessage_def split: sum.split)

lemma literal_names:
  "''file_list'' \<notin> set object_prototype_names" "''file_content'' \<notin> set object_prototype_names"
  "''upload_success'' \<notin> set object_prototype_names" "''delete_success'' \<notin> set object_prototype_names"
  "''mkdir_success'' \<notin> set object_prototype_names" "''connect_success'' \<notin> set object_prototype_names"
  "''connect_error'' \<notin> set object_prototype_names" "''error'' \<notin> set object_prototype_names"
  "''disconnect'' \<notin> set object_prototype_names"
  "''file_list'' \<notin> set constructor_keys" "''file_content'' \<notin> set constructor_keys"
  "''upload_success'' \<notin> set constructor_keys" "''delete_success'' \<notin> set constructor_keys"
  "''mkdir_success'' \<notin> set constructor_keys" "''connect_success'' \<notin> set constructor_keys"
  "''connect_error'' \<notin> set constructor_keys"
  by (simp_all add: object_prototype_names_def constructor_keys_def)

lemma request_exec_new_evolves:
  assumes "handler_request h1 = Some (nextId s)" "handler_request h2 = Some (nextId s)"
    and "sk \<notin> set object_prototype_names" "ek \<notin> set object_prototype_names"
    and "frame_only body"
    and "eventListeners s0 = eventListeners s" "timers s0 = timers s" "settled s0 = settled s"
      "nextId s0 = Suc (nextId s)"
  shows "evolves s (request_exec (nextId s) sk h1 ek h2 tmsg body s0)"
  by (rule request_exec_evolves[OF assms(6-9) refl assms(1-5)])

lemma listFiles_evolves: "evolves s (listFiles path s)"
  unfolding listFiles_shape
  by (simp add: settle_new_evolves request_exec_new_evolves literal_names frame_only_sendMessage)

lemma downloadFile_evolves: "evolves s (downloadFile remotePath s)"
  unfolding downloadFile_shape
  by (simp add: settle_new_evolves request_exec_new_evolves literal_names frame_only_sendMessage)

lemma uploadFile_evolves: "evolves s (uploadFile maxArguments remotePath content s)"
  unfolding uploadFile_shape
  by (simp add: settle_new_evolves request_exec_new_evolves literal_names frame_only_upload)

lemma deleteFile_evolves: "evolves s (deleteFile path isDirectory s)"
  unfolding deleteFile_shape
  by (simp add: settle_new_evolves request_exec_new_evolves literal_names frame_only_sendMessage)

lemma createDirectory_evolves: "evolves s (createDirectory path s)"
  unfolding createDirectory_shape
  by (simp add: settle_new_evolves request_exec_new_evolves literal_names frame_only_sendMessage)

lemma connect_evolves: "evolves s (connect c hs s)"
proof (cases "wsOpen s")
  case True
  then show ?thesis
    by (simp add: connect_def Let_def connect_request_shape request_exec_new_evolves
        literal_names frame_only_sendMessage)
next
  case False
  show ?thesis
  proof (cases hs)
    case WsOpens
    with False show ?thesis
      by (simp add: connect_def Let_def connect_request_shape request_exec_new_evolves
          literal_names frame_only_sendMessage)
  next
    case WsFails
    let ?d = "empty_message\<lparr>msg_error := Some ''WebSocket connection error''\<rparr>"
    have "evolves s (reject (nextId s) WsErrorEvent (snd (emitEvent ''error'' ?d (new_promise s))))"
      by (rule evolves_promise[OF emitEvent_evolves[of "new_promise s" "''error''" ?d],
            where extra = "[(nextId s, Rejected WsErrorEvent)]"])
         (simp_all add: reject_def)
    with False WsFails show ?thesis by (simp add: connect_def Let_def)
  qed
qed

lemma disconnect_evolves: "evolves s (disconnect s)"
proof (cases "isConnected s")
  case False
  then show ?thesis by (simp add: disconnect_def Let_def settle_new_evolves)
next
  case True
  let ?r = "nextId s"
  let ?s1 = "snd (once ''disconnect'' (OnDisconnect ?r) (new_promise s))"
  let ?m = "empty_command\<lparr>cmd_type := Some ''disconnect''\<rparr>"
  let ?s' = "disconnect s"
  have d: "?s' = (if wsOpen s then ?s1\<lparr>outbox := outbox ?s1 @ [?m]\<rparr>
                  else reject ?r (Error ''WebSocket is not connected'') ?s1)"
    using True
    by (simp add: disconnect_def Let_def executor_alt and_then_alt once_fst literal_names
        sendMessage_def)
  have l: "\<And>e. eventListeners ?s' e =
      (case eventListeners s e of None \<Rightarrow> None
       | Some l \<Rightarrow> Some (if ''disconnect'' = e then l @ [OnceCallback (Suc ?r) ''disconnect'' (OnDisconnect ?r)] else l))"
    unfolding d by (simp add: once_listeners reject_def split: option.split)
  have t: "timers ?s' = timers s" unfolding d by (simp add: reject_def)
  have n: "nextId ?s' = Suc (Suc ?r)" unfolding d by (simp add: reject_def)
  obtain ext where e: "settled ?s' = settled s @ ext" and x: "\<forall>x \<in> set ext. fst x = ?r"
  proof (cases "wsOpen s")
    case True
    then have "settled ?s' = settled s @ []" unfolding d by simp
    then show ?thesis using that[of "[]"] by simp
  next
    case False
    then have "settled ?s' = settled s @ [(?r, Rejected (Error ''WebSocket is not connected''))]"
      unfolding d by (simp add: reject_def)
    then show ?thesis using that[of "[(?r, Rejected (Error ''WebSocket is not connected''))]"] by simp
  qed
  show ?thesis
  proof (rule evolvesI[where ext = ext])
    show "nextId s \<le> nextId ?s'" unfolding n by simp
    show "\<And>e. (eventListeners ?s' e = None) = (eventListeners s e = None)"
      by (simp add: l split: option.split)
    show "settled ?s' = settled s @ ext" by (rule e)
  next
    fix e l0 l' c
    assume a: "eventListeners s e = Some l0" "eventListeners ?s' e = Some l'" "c \<in> set l'"
    from a(1) a(2) have "l' = (if ''disconnect'' = e then l0 @ [OnceCallback (Suc ?r) ''disconnect'' (OnDisconnect ?r)] else l0)"
      by (simp add: l)
    with a(3) have "c \<in> set l0 \<or> callback_request c = Some ?r" by (auto split: if_splits)
    then show "c \<in> set l0 \<or> (\<forall>q. callback_request c = Some q \<longrightarrow> nextId s \<le> q \<and> q < nextId ?s')"
      unfolding n by auto
  next
    fix e l0 l' q
    assume a: "eventListeners s e = Some l0" "eventListeners ?s' e = Some l'" "q < nextId s"
    from a(1) a(2) have "l' = (if ''disconnect'' = e then l0 @ [OnceCallback (Suc ?r) ''disconnect'' (OnDisconnect ?r)] else l0)"
      by (simp add: l)
    with a(3) have "filter (\<lambda>c. callback_request c = Some q) l' = filter (\<lambda>c. callback_request c = Some q) l0"
      by auto
    then show "length (filter (\<lambda>c. callback_request c = Some q) l')
            \<le> length (filter (\<lambda>c. callback_request c = Some q) l0)" by simp
  next
    fix t0 x0 assume "timers ?s' t0 = Some x0"
    then show "timers s t0 = Some x0 \<or> (nextId s \<le> t0 \<and> t0 < nextId ?s')" by (simp add: t)
  next
    fix y assume "y \<in> set ext"
    with x have "fst y = ?r" by blast
    then show "timers s (fst y) \<noteq> None
        \<or> (\<exists>e l c. eventListeners s e = Some l \<and> c \<in> set l \<and> callback_request c = Some (fst y))
        \<or> (nextId s \<le> fst y \<and> fst y < nextId ?s')"
      unfolding n by simp
  qed
qed

lemma close_evolves: "evolves s (close s)"
proof -
  have "evolves s (close s) = evolves s s" by (rule evolves_cong2) (simp_all add: close_def)
  then show ?thesis by (simp add: evolves_refl)
qed

lemma subscribe_evolves: "evolves s (snd (on event (Plain (Subscriber k)) s))"
proof (rule evolvesI[where ext = "[]"])
  let ?s' = "snd (on event (Plain (Subscriber k)) s)"
  show "nextId s \<le> nextId ?s'" by (simp add: on_def split: slot.split)
  show "\<And>e. (eventListeners ?s' e = None) = (eventListeners s e = None)"
    by (simp add: on_listeners split: option.split)
  show "settled ?s' = settled s @ []" by (simp add: on_def split: slot.split)
  show "\<And>e l l' c. eventListeners s e = Some l \<Longrightarrow> eventListeners ?s' e = Some l' \<Longrightarrow> c \<in> set l' \<Longrightarrow>
          c \<in> set l \<or> (\<forall>r. callback_request c = Some r \<longrightarrow> nextId s \<le> r \<and> r < nextId ?s')"
    by (auto simp: on_listeners split: if_splits)
  show "\<And>e l l' r. eventListeners s e = Some l \<Longrightarrow> eventListeners ?s' e = Some l' \<Longrightarrow> r < nextId s \<Longrightarrow>
          length (filter (\<lambda>c. callback_request c = Some r) l')
            \<le> length (filter (\<lambda>c. callback_request c = Some r) l)"
    by (auto simp: on_listeners split: if_splits)
  show "\<And>t x. timers ?s' t = Some x \<Longrightarrow> timers s t = Some x \<or> (nextId s \<le> t \<and> t < nextId ?s')"
    by (simp add: on_def split: slot.splits)
qed simp

lemma unsubscribe_evolves: "evolves s (snd (off event cb s))"
proof (rule evolvesI[where ext = "[]"])
  let ?s' = "snd (off event cb s)"
  show "nextId s \<le> nextId ?s'" by simp
  show "\<And>e. (eventListeners ?s' e = None) = (eventListeners s e = None)"
    by (simp add: off_listeners split: option.split)
  show "settled ?s' = settled s @ []" by simp
  show "\<And>e l l' c. eventListeners s e = Some l \<Longrightarrow> eventListeners ?s' e = Some l' \<Longrightarrow> c \<in> set l' \<Longrightarrow>
          c \<in> set l \<or> (\<forall>r. callback_request c = Some r \<longrightarrow> nextId s \<le> r \<and> r < nextId ?s')"
    by (auto simp: off_listeners split: if_splits)
  show "\<And>e l l' r. eventListeners s e = Some l \<Longrightarrow> eventListeners ?s' e = Some l' \<Longrightarrow> r < nextId s \<Longrightarrow>
          length (filter (\<lambda>c. callback_request c = Some r) l')
            \<le> length (filter (\<lambda>c. callback_request c = Some r) l)"
    by (auto simp: off_listeners filter_conj_length split: if_splits)
  show "\<And>t x. timers ?s' t = Some x \<Longrightarrow> timers s t = Some x \<or> (nextId s \<le> t \<and> t < nextId ?s')"
    by simp
qed simp

lemma perform_evolves: "evolves s (perform q s)"
  by (cases q)
     (simp_all add: connect_evolves listFiles_evolves downloadFile_evolves uploadFile_evolves
        deleteFile_evolves createDirectory_evolves disconnect_evolves close_evolves
        subscribe_evolves unsubscribe_evolves)

lemma client_step_evolves: "evolves s (client_step ev s)"
  by (cases ev)
     (simp_all add: handleMessage_evolves fire_timeout_evolves ws_onclose_evolves perform_evolves)

lemma client_run_inv: "client_inv s \<Longrightarrow> client_inv (client_run es s)"
  by (induction es rule: rev_induct)
     (simp_all add: client_run_def evolves_inv[OF _ client_step_evolves])

section \<open>The client: the claims\<close>

lemma constructor_dom: "dom (eventListeners constructor) = set constructor_keys"
  by (auto simp: constructor_def constructor_listeners_def split: if_splits)

lemma constructor_inv: "client_inv constructor"
  by (rule client_invI)
     (auto simp: constructor_dom, auto simp: constructor_def constructor_listeners_def split: if_splits)

lemma on_absent: "eventListeners s event = None \<Longrightarrow> snd (on event cb s) = s"
  by (simp add: on_def lookup_listeners_def)

lemma off_absent: "eventListeners s event = None \<Longrightarrow> snd (off event cb s) = s"
  by (simp add: off_def lookup_listeners_def)

lemma emit_absent: "eventListeners s event = None \<Longrightarrow> snd (emitEvent event d s) = s"
  by (simp add: emitEvent_def lookup_listeners_def)

lemma once_absent:
  "eventListeners s event = None \<Longrightarrow> snd (once event h s) = s\<lparr>nextId := Suc (nextId s)\<rparr>"
  by (simp add: once_def on_def lookup_listeners_def)

lemma keys_dom: "(\<And>e. (m' e = None) = (m e = None)) \<Longrightarrow> dom m' = dom m"
  by (auto simp: dom_def)

lemma on_dom: "dom (eventListeners (snd (on e c s))) = dom (eventListeners s)"
  by (rule keys_dom) (simp add: on_listeners split: option.split)

lemma off_dom: "dom (eventListeners (snd (off e c s))) = dom (eventListeners s)"
  by (rule keys_dom) (simp add: off_listeners split: option.split)

lemma once_dom: "dom (eventListeners (snd (once e h s))) = dom (eventListeners s)"
  by (rule keys_dom) (simp add: once_listeners split: option.split)

lemma emitEvent_dom: "dom (eventListeners (snd (emitEvent e d s))) = dom (eventListeners s)"
  by (rule keys_dom) (rule evolves_keys[OF emitEvent_evolves])

text \<open>
  Claim C10.  For an event name that is none of the eight keys of the constructor,
  \<open>on\<close>, \<open>once\<close> and \<open>off\<close> leave the listener table as it is, \<open>_emitEvent\<close> calls
  nothing and leaves the whole client as it is, and a message of that kind is dropped
  by \<open>_handleMessage\<close>.  For every event name, \<open>on\<close>, \<open>once\<close>, \<open>off\<close> and
  \<open>_emitEvent\<close> keep the keys of the table, which the constructor sets to the eight.
\<close>

theorem unknown_event_dropped:
  assumes "dom (eventListeners s) = set constructor_keys" and "event \<notin> set constructor_keys"
  shows "eventListeners (snd (on event cb s)) = eventListeners s
       \<and> eventListeners (snd (once event h s)) = eventListeners s
       \<and> eventListeners (snd (off event cb s)) = eventListeners s
       \<and> snd (emitEvent event d s) = s
       \<and> handleMessage (Json (d\<lparr>msg_type := Some event\<rparr>)) s = s
       \<and> (\<forall>e c h' d'.
             dom (eventListeners (snd (on e c s))) = set constructor_keys
           \<and> dom (eventListeners (snd (once e h' s))) = set constructor_keys
           \<and> dom (eventListeners (snd (off e c s))) = set constructor_keys
           \<and> dom (eventListeners (snd (emitEvent e d' s))) = set constructor_keys)
       \<and> dom (eventListeners constructor) = set constructor_keys"
proof -
  have n: "eventListeners s event = None" using assms by auto
  show ?thesis using assms(1)
    by (simp add: on_absent[OF n] once_absent[OF n] off_absent[OF n] emit_absent[OF n]
        handleMessage_def type_key_def on_dom off_dom once_dom emitEvent_dom constructor_dom)
qed

theorem unknown_event_dropped_witness:
  "dom (eventListeners constructor) = set constructor_keys
   \<and> ''file_list'' \<notin> set constructor_keys
   \<and> eventListeners (snd (on ''file_list'' (Plain (Subscriber 0)) constructor)) = eventListeners constructor
   \<and> eventListeners (snd (once ''file_list'' (OnFileList 0) constructor)) = eventListeners constructor
   \<and> snd (emitEvent ''file_list'' empty_message constructor) = constructor
   \<and> handleMessage (Json (empty_message\<lparr>msg_type := Some ''file_list''\<rparr>)) constructor = constructor"
  using unknown_event_dropped[of constructor "''file_list''" "Plain (Subscriber 0)" "OnFileList 0" empty_message]
  by (simp add: constructor_dom literal_names)

lemma connected_client_inv: "client_inv connected_client"
  by (rule client_invI)
     (auto simp: connected_client_def constructor_def constructor_listeners_def split: if_splits)

lemmas eval_defs = listFiles_def connected_client_def constructor_def constructor_listeners_def
  constructor_keys_def new_promise_def setTimeout_def once_def on_def off_def lookup_listeners_def
  object_prototype_names_def and_then_def executor_def sendMessage_def Let_def
  handleMessage_def emitEvent_def type_key_def call_callback_def clearTimeout_def reject_def
  resolve_def error_or_def empty_message_def permission_denied_def fulfilments_def client_run_def

text \<open>
  Claim C1 fails on the code.  The bridge answers an accepted connect with
  \<open>connect_success\<close>.  The client registered its one-shot handler under that name,
  which is no key of the listener table, so nothing was registered; the message is
  dropped, the client stays disconnected without a session token, the promise of
  \<open>connect\<close> is rejected when the timeout fires, and \<open>listFiles\<close> is rejected at once
  without sending anything.
\<close>

theorem connect_success_never_resolves:
  "map_option sent (server_run accepted_run initial_server) = Some [(''c1'', bridge_accepts)]
   \<and> outbox (connect c WsOpens constructor) = [connect_command c]
   \<and> timers (connect c WsOpens constructor) 0 = Some ''Connection timed out''
   \<and> eventListeners (connect c WsOpens constructor) = eventListeners constructor
   \<and> handleMessage (Json bridge_accepts) (connect c WsOpens constructor) = connect c WsOpens constructor
   \<and> \<not> isConnected (handleMessage (Json bridge_accepts) (connect c WsOpens constructor))
   \<and> connectionId (handleMessage (Json bridge_accepts) (connect c WsOpens constructor)) = None
   \<and> settled (handleMessage (Json bridge_accepts) (connect c WsOpens constructor)) = []
   \<and> settled (fire_timeout 0 (handleMessage (Json bridge_accepts) (connect c WsOpens constructor)))
        = [(0, Rejected (Error ''Connection timed out''))]
   \<and> settled (listFiles ''/'' (handleMessage (Json bridge_accepts) (connect c WsOpens constructor)))
        = [(3, Rejected (Error ''Not connected to any SFTP server''))]
   \<and> outbox (listFiles ''/'' (handleMessage (Json bridge_accepts) (connect c WsOpens constructor)))
        = [connect_command c]"
proof -
  let ?s1 = "connect c WsOpens constructor"
  have a: "map_option sent (server_run accepted_run initial_server) = Some [(''c1'', bridge_accepts)]"
    by (simp add: accepted_run_def on_message_def try_message_def case_connect_def on_ready_def
      on_sftp_def completed_def Let_def sendResponse_def call_remote_def bridge_accepts_def
      empty_message_def empty_command_def initial_server_def)
  have s1: "?s1 = constructor\<lparr>wsOpen := True, nextId := 3,
       timers := [0 \<mapsto> ''Connection timed out''], outbox := [connect_command c]\<rparr>"
    by (simp add: connect_def connect_request_def new_promise_def setTimeout_def once_def on_def
        lookup_listeners_def object_prototype_names_def and_then_def executor_def sendMessage_def
        Let_def constructor_def constructor_listeners_def constructor_keys_def)
  have h: "handleMessage (Json bridge_accepts) ?s1 = ?s1"
    unfolding s1
    by (simp add: handleMessage_def emitEvent_def type_key_def lookup_listeners_def
        bridge_accepts_def empty_message_def constructor_def constructor_listeners_def
        constructor_keys_def object_prototype_names_def)
  have b: "outbox ?s1 = [connect_command c]"
    and t: "timers ?s1 0 = Some ''Connection timed out''"
    by (simp_all only: s1) simp_all
  have l: "eventListeners ?s1 = eventListeners constructor"
    and i: "\<not> isConnected ?s1" and ci: "connectionId ?s1 = None" and st: "settled ?s1 = []"
    by (simp_all only: s1) (simp_all add: constructor_def)
  have ft: "settled (fire_timeout 0 ?s1) = [(0, Rejected (Error ''Connection timed out''))]"
    by (simp only: s1) (simp add: constructor_def fire_timeout_def reject_def)
  have lf: "settled (listFiles ''/'' ?s1) = [(3, Rejected (Error ''Not connected to any SFTP server''))]"
    "outbox (listFiles ''/'' ?s1) = [connect_command c]"
    by (simp_all only: s1)
       (simp_all add: constructor_def listFiles_def new_promise_def reject_def not_connected_def
          Let_def)
  from a b t l i ci st ft lf show ?thesis unfolding h by simp
qed

lemma accepted_server_run: "server_run accepted_run initial_server = Some accepted_server"
  by (simp add: accepted_run_def accepted_server_def on_message_def try_message_def
      case_connect_def on_ready_def on_sftp_def completed_def Let_def sendResponse_def
      call_remote_def empty_message_def empty_command_def initial_server_def)

lemma settled_fresh:
  assumes "client_inv s" "nextId s \<le> n"
  shows "filter (\<lambda>x. fst x = n) (settled s) = []"
proof -
  have "\<And>x. x \<in> set (settled s) \<Longrightarrow> fst x \<noteq> n"
    using client_invD(4)[OF assms(1)] assms(2) by fastforce
  then show ?thesis by (auto simp: filter_empty_conv)
qed

lemma disconnect_idle:
  assumes inv: "client_inv s" and idle: "\<not> isConnected s"
  shows "\<not> isConnected (disconnect s)"
    and "filter (\<lambda>x. fst x = nextId s) (settled (disconnect s)) = [(nextId s, Resolved VUndefined)]"
    and "settled (disconnect s) = settled s @ [(nextId s, Resolved VUndefined)]"
proof -
  have d: "disconnect s = resolve (nextId s) VUndefined (new_promise s)"
    using idle by (simp add: disconnect_def Let_def)
  show "\<not> isConnected (disconnect s)" unfolding d using idle by (simp add: resolve_def)
  show "settled (disconnect s) = settled s @ [(nextId s, Resolved VUndefined)]"
    unfolding d by (simp add: resolve_def)
  then show "filter (\<lambda>x. fst x = nextId s) (settled (disconnect s)) = [(nextId s, Resolved VUndefined)]"
    using settled_fresh[OF inv le_refl] by simp
qed

lemma disconnect_answered:
  assumes inv: "client_inv s" and con: "isConnected s" and ws: "wsOpen s"
  shows "\<not> isConnected (handleMessage disconnected_notice (disconnect s))"
    and "filter (\<lambda>x. fst x = nextId s) (settled (handleMessage disconnected_notice (disconnect s)))
           = [(nextId s, Resolved VUndefined)]"
proof -
  let ?r = "nextId s"
  let ?w = "OnceCallback (Suc ?r) ''disconnect'' (OnDisconnect ?r)"
  let ?m = "empty_message\<lparr>msg_type := Some ''disconnect'', msg_message := Some ''Disconnected''\<rparr>"
  let ?s1 = "disconnect s"
  let ?f = "\<lambda>st cb. snd (call_callback cb ?m st)"
  have "''disconnect'' \<in> dom (eventListeners s)"
    using client_invD(1)[OF inv] by (simp add: constructor_keys_def)
  then obtain l where l: "eventListeners s ''disconnect'' = Some l" by auto
  have d: "?s1 = (snd (once ''disconnect'' (OnDisconnect ?r) (new_promise s)))
                   \<lparr>outbox := outbox s @ [empty_command\<lparr>cmd_type := Some ''disconnect''\<rparr>]\<rparr>"
    using con ws
    by (simp add: disconnect_def Let_def executor_alt and_then_alt once_fst literal_names
        sendMessage_def new_promise_def)
  have l1: "eventListeners ?s1 ''disconnect'' = Some (l @ [?w])"
    unfolding d using l by (simp add: once_listeners)
  have st1: "settled ?s1 = settled s" unfolding d by simp
  have h: "handleMessage disconnected_notice ?s1 = snd (call_callback ?w ?m (foldl ?f ?s1 l))"
    using l1 by (simp add: handleMessage_def disconnected_notice_def emitEvent_def type_key_def
        lookup_listeners_def empty_message_def)
  let ?st = "foldl ?f ?s1 l"
  have k: "eventListeners ?st ''disconnect'' \<noteq> None"
    using l1 by (simp add: fold_callbacks_keys)
  have o: "fst (off ''disconnect'' ?w (?st\<lparr>invoked := invoked ?st @ [?w]\<rparr>)) = None"
    using k by (simp add: off_returns)
  have cc: "snd (call_callback ?w ?m ?st) =
      resolve ?r VUndefined ((snd (off ''disconnect'' ?w (?st\<lparr>invoked := invoked ?st @ [?w]\<rparr>)))
         \<lparr>isConnected := False, connectionId := None\<rparr>)"
    using o by (simp add: call_callback_unfold)
  show "\<not> isConnected (handleMessage disconnected_notice ?s1)"
    unfolding h cc by (simp add: resolve_def)
  have s2: "settled (handleMessage disconnected_notice ?s1) = settled ?st @ [(?r, Resolved VUndefined)]"
    unfolding h cc by (simp add: resolve_def)
  from fold_callbacks_settled[of ?m ?s1 l] obtain ext where
    e: "settled ?st = settled ?s1 @ ext"
    and x: "\<forall>x \<in> set ext. \<exists>c \<in> set l. callback_request c = Some (fst x)" by blast
  have "\<And>y. y \<in> set ext \<Longrightarrow> fst y \<noteq> ?r"
  proof
    fix y assume y: "y \<in> set ext" "fst y = ?r"
    with x obtain c where c: "c \<in> set l" "callback_request c = Some ?r" by metis
    from client_invD(2)[OF inv l c] show False by simp
  qed
  then have "filter (\<lambda>x. fst x = ?r) ext = []" by (auto simp: filter_empty_conv)
  then show "filter (\<lambda>x. fst x = ?r) (settled (handleMessage disconnected_notice ?s1))
           = [(?r, Resolved VUndefined)]"
    unfolding s2 e st1 using settled_fresh[OF inv le_refl] by simp
qed

lemma disconnect_twice:
  assumes inv: "client_inv s" and ws: "wsOpen s \<or> \<not> isConnected s"
  shows "\<not> isConnected (if isConnected s then handleMessage disconnected_notice (disconnect s)
                          else disconnect s)
       \<and> \<not> isConnected (disconnect (if isConnected s then handleMessage disconnected_notice (disconnect s)
                          else disconnect s))
       \<and> filter (\<lambda>x. fst x = nextId s)
           (settled (disconnect (if isConnected s then handleMessage disconnected_notice (disconnect s)
                          else disconnect s))) = [(nextId s, Resolved VUndefined)]
       \<and> filter (\<lambda>x. fst x = nextId (if isConnected s then handleMessage disconnected_notice (disconnect s)
                          else disconnect s))
           (settled (disconnect (if isConnected s then handleMessage disconnected_notice (disconnect s)
                          else disconnect s)))
          = [(nextId (if isConnected s then handleMessage disconnected_notice (disconnect s)
                          else disconnect s), Resolved VUndefined)]"
proof -
  let ?s2 = "if isConnected s then handleMessage disconnected_notice (disconnect s) else disconnect s"
  have ev1: "evolves s (disconnect s)" by (rule disconnect_evolves)
  have inv1: "client_inv (disconnect s)" by (rule evolves_inv[OF inv ev1])
  have inv2: "client_inv ?s2"
    using inv1 evolves_inv[OF inv1 handleMessage_evolves[of "disconnect s" disconnected_notice]]
    by simp
  have lt1: "nextId s < nextId (disconnect s)"
    by (cases "isConnected s") (simp_all add: disconnect_def Let_def executor_alt and_then_alt
        once_fst literal_names sendMessage_def reject_def resolve_def split: option.split)
  have lt: "nextId s < nextId ?s2"
    using lt1 evolves_nextId[OF handleMessage_evolves[of "disconnect s" disconnected_notice]]
    by auto
  have idle2: "\<not> isConnected ?s2" and f2: "filter (\<lambda>x. fst x = nextId s) (settled ?s2)
           = [(nextId s, Resolved VUndefined)]"
    using disconnect_answered[OF inv] disconnect_idle(1,2)[OF inv] ws by auto
  note d3 = disconnect_idle[OF inv2 idle2]
  have "filter (\<lambda>x. fst x = nextId s) (settled (disconnect ?s2)) = [(nextId s, Resolved VUndefined)]"
    unfolding d3(3) using f2 lt by simp
  with idle2 d3(1) d3(2) show ?thesis by simp
qed

text \<open>
  Claim C9.  On the client: \<open>disconnect\<close>, awaited, and then \<open>disconnect\<close> again.  With
  a session the first call sends the command and its promise resolves when the
  notification of the bridge arrives; without one it resolves at once, as the second
  call always does.  Neither promise is rejected, and \<open>isConnected\<close> is false after each
  call.  On the bridge, in every state a run can reach: a \<open>disconnect\<close> command ends the
  remote client if the channel has one, leaves the channel without registry entry and
  without client, and sends the notification, whether or not a session existed.
\<close>

theorem disconnect_idempotent:
  assumes "client_inv s" and "wsOpen s \<or> \<not> isConnected s"
    and "server_run es initial_server = Some srv" and "cmd_type d = Some ''disconnect''"
  shows "\<not> isConnected (if isConnected s then handleMessage disconnected_notice (disconnect s)
                          else disconnect s)
       \<and> \<not> isConnected (disconnect (if isConnected s then handleMessage disconnected_notice (disconnect s)
                          else disconnect s))
       \<and> filter (\<lambda>x. fst x = nextId s)
           (settled (disconnect (if isConnected s then handleMessage disconnected_notice (disconnect s)
                          else disconnect s))) = [(nextId s, Resolved VUndefined)]
       \<and> filter (\<lambda>x. fst x = nextId (if isConnected s then handleMessage disconnected_notice (disconnect s)
                          else disconnect s))
           (settled (disconnect (if isConnected s then handleMessage disconnected_notice (disconnect s)
                          else disconnect s)))
          = [(nextId (if isConnected s then handleMessage disconnected_notice (disconnect s)
                          else disconnect s), Resolved VUndefined)]
       \<and> on_message cid (JsonValue d) srv =
           srv\<lparr>activeConnections := (activeConnections srv)(cid := None),
             sftpClient := (sftpClient srv)(cid := None),
             sent := sent srv @ [(cid, empty_message\<lparr>msg_type := Some ''disconnect'',
                                       msg_message := Some ''Disconnected''\<rparr>)],
             remote := remote srv @
               (case sftpClient srv cid of Some c \<Rightarrow> [(cid, ClientEnd c)] | None \<Rightarrow> [])\<rparr>"
proof -
  note a = disconnect_twice[OF assms(1) assms(2)]
  note b = disconnect_command[OF assms(3) assms(4), of cid]
  show ?thesis using a b apply (intro conjI) apply (elim conjE, assumption)+ done
qed

theorem disconnect_idempotent_witness:
  "client_inv connected_client \<and> wsOpen connected_client \<and> isConnected connected_client
   \<and> server_run accepted_run initial_server = Some accepted_server
   \<and> \<not> isConnected (handleMessage disconnected_notice (disconnect connected_client))
   \<and> \<not> isConnected (disconnect (handleMessage disconnected_notice (disconnect connected_client)))
   \<and> filter (\<lambda>x. fst x = 0)
         (settled (disconnect (handleMessage disconnected_notice (disconnect connected_client))))
       = [(0, Resolved VUndefined)]
   \<and> activeConnections (on_message ''c1''
         (JsonValue (empty_command\<lparr>cmd_type := Some ''disconnect''\<rparr>)) accepted_server) ''c1'' = None
   \<and> sftpClient (on_message ''c1''
         (JsonValue (empty_command\<lparr>cmd_type := Some ''disconnect''\<rparr>)) accepted_server) ''c1'' = None
   \<and> remote (on_message ''c1''
         (JsonValue (empty_command\<lparr>cmd_type := Some ''disconnect''\<rparr>)) accepted_server)
       = remote accepted_server @ [(''c1'', ClientEnd 0)]"
proof -
  have c: "isConnected connected_client" "wsOpen connected_client" "nextId connected_client = 0"
    by (simp_all add: connected_client_def constructor_def)
  have h2: "wsOpen connected_client \<or> \<not> isConnected connected_client" using c by simp
  have h4: "cmd_type (empty_command\<lparr>cmd_type := Some ''disconnect''\<rparr>) = Some ''disconnect''" by simp
  have v: "sftpClient accepted_server ''c1'' = Some 0" by (simp add: accepted_server_def)
  from disconnect_idempotent[OF connected_client_inv h2 accepted_server_run h4, of "''c1''"]
  have "\<not> isConnected (handleMessage disconnected_notice (disconnect connected_client))
     \<and> \<not> isConnected (disconnect (handleMessage disconnected_notice (disconnect connected_client)))
     \<and> filter (\<lambda>x. fst x = 0)
         (settled (disconnect (handleMessage disconnected_notice (disconnect connected_client))))
       = [(0, Resolved VUndefined)]
     \<and> on_message ''c1'' (JsonValue (empty_command\<lparr>cmd_type := Some ''disconnect''\<rparr>)) accepted_server =
           accepted_server\<lparr>activeConnections := (activeConnections accepted_server)(''c1'' := None),
             sftpClient := (sftpClient accepted_server)(''c1'' := None),
             sent := sent accepted_server @ [(''c1'', empty_message\<lparr>msg_type := Some ''disconnect'',
                                       msg_message := Some ''Disconnected''\<rparr>)],
             remote := remote accepted_server @ [(''c1'', ClientEnd 0)]\<rparr>"
    by (simp add: c v)
  then show ?thesis using c connected_client_inv accepted_server_run by simp
qed

section \<open>The client: no run opens a session\<close>

text \<open>
  \<open>isConnected\<close> is set only by the handler that \<open>connect\<close> registers under
  \<open>connect_success\<close>, and that name is no key of the listener table.  So every state
  that calls, messages, timeouts and socket events lead to from the constructor is
  \<open>idle\<close>: a message only reaches callbacks of callers.
\<close>

lemma idle_frame:
  "idle s \<Longrightarrow> eventListeners s' = eventListeners s \<Longrightarrow> \<not> isConnected s' \<Longrightarrow> idle s'"
  by (simp add: idle_def)

lemma idle_absent: "idle s \<Longrightarrow> e \<notin> set constructor_keys \<Longrightarrow> eventListeners s e = None"
  by (auto simp: idle_def)

lemma idle_constructor: "idle constructor"
  by (auto simp: idle_def constructor_def constructor_listeners_def split: if_splits)

lemma subscriber_call:
  "subscriber cb \<Longrightarrow> snd (call_callback cb d s) = s\<lparr>invoked := invoked s @ [cb]\<rparr>"
  by (cases cb rule: subscriber.cases) (simp_all add: call_callback_def)

lemma fold_subscribers:
  "list_all subscriber cbs \<Longrightarrow>
     foldl (\<lambda>st cb. snd (call_callback cb d st)) s cbs = s\<lparr>invoked := invoked s @ cbs\<rparr>"
proof (induction cbs arbitrary: s)
  case Nil
  show ?case by simp
next
  case (Cons cb cbs)
  then show ?case by (simp add: subscriber_call)
qed

lemma idle_emitEvent:
  assumes "idle s"
  shows "\<exists>cbs. snd (emitEvent e d s) = s\<lparr>invoked := invoked s @ cbs\<rparr>"
proof (cases "eventListeners s e")
  case None
  then have "snd (emitEvent e d s) = s\<lparr>invoked := invoked s @ []\<rparr>"
    by (simp add: emitEvent_def lookup_listeners_def)
  then show ?thesis by blast
next
  case (Some l)
  with assms have "list_all subscriber l" by (simp add: idle_def)
  then have "snd (emitEvent e d s) = s\<lparr>invoked := invoked s @ l\<rparr>"
    using Some by (simp add: emitEvent_def lookup_listeners_def fold_subscribers)
  then show ?thesis by blast
qed

lemma idle_handleMessage:
  assumes "idle s"
  shows "\<exists>cbs. handleMessage f s = s\<lparr>invoked := invoked s @ cbs\<rparr>"
proof (cases f)
  case (Json m)
  then show ?thesis using idle_emitEvent[OF assms] by (simp add: handleMessage_def)
next
  case Malformed
  have "handleMessage f s = s\<lparr>invoked := invoked s @ []\<rparr>" using Malformed by (simp add: handleMessage_def)
  then show ?thesis by blast
next
  case JsonNull
  have "handleMessage f s = s\<lparr>invoked := invoked s @ []\<rparr>" using JsonNull by (simp add: handleMessage_def)
  then show ?thesis by blast
qed

lemma idle_connect_request:
  assumes "idle s" "eventListeners s0 = eventListeners s" "\<not> isConnected s0"
  shows "idle (connect_request r c s0)"
proof -
  have k: "eventListeners s0 ''connect_success'' = None" "eventListeners s0 ''connect_error'' = None"
    using idle_absent[OF assms(1)] assms(2) by (simp_all add: literal_names)
  have "eventListeners (connect_request r c s0) = eventListeners s0
      \<and> isConnected (connect_request r c s0) = isConnected s0"
    using k
    by (simp add: connect_request_def once_def on_def lookup_listeners_def setTimeout_def
        literal_names and_then_def executor_def sendMessage_def reject_def)
  with assms show ?thesis by (simp add: idle_frame)
qed

lemma idle_step_perform: "idle s \<Longrightarrow> idle (perform q s)"
proof (cases q)
  case (Connect c hs)
  assume i: "idle s"
  show ?thesis
  proof (cases "wsOpen s")
    case True
    then show ?thesis using Connect i idle_connect_request[OF i, of "new_promise s"]
      by (simp add: connect_def Let_def idle_def)
  next
    case False
    show ?thesis
    proof (cases hs)
      case WsOpens
      then show ?thesis using Connect i False
          idle_connect_request[OF i, of "(new_promise s)\<lparr>wsOpen := True\<rparr>"]
        by (simp add: connect_def Let_def idle_def)
    next
      case WsFails
      have i0: "idle (new_promise s)" using i by (simp add: idle_def)
      from idle_emitEvent[OF i0] obtain cbs where
        "snd (emitEvent ''error'' (empty_message\<lparr>msg_error := Some ''WebSocket connection error''\<rparr>)
           (new_promise s)) = (new_promise s)\<lparr>invoked := invoked (new_promise s) @ cbs\<rparr>" by blast
      then show ?thesis using Connect i False WsFails
        by (simp add: connect_def Let_def idle_def reject_def)
    qed
  qed
next
  case (ListFiles p)
  assume "idle s" then show ?thesis using ListFiles
    by (simp add: listFiles_def Let_def idle_def reject_def)
next
  case (DownloadFile p)
  assume "idle s" then show ?thesis using DownloadFile
    by (simp add: downloadFile_def Let_def idle_def reject_def)
next
  case (UploadFile m p c)
  assume "idle s" then show ?thesis using UploadFile
    by (simp add: uploadFile_def Let_def idle_def reject_def)
next
  case (DeleteFile p b)
  assume "idle s" then show ?thesis using DeleteFile
    by (simp add: deleteFile_def Let_def idle_def reject_def)
next
  case (CreateDirectory p)
  assume "idle s" then show ?thesis using CreateDirectory
    by (simp add: createDirectory_def Let_def idle_def reject_def)
next
  case Disconnect
  assume "idle s" then show ?thesis using Disconnect
    by (simp add: disconnect_def Let_def idle_def resolve_def)
next
  case Close
  assume "idle s" then show ?thesis using Close by (simp add: close_def idle_def)
next
  case (Subscribe e k)
  assume i: "idle s"
  have d: "dom (eventListeners (snd (on e (Plain (Subscriber k)) s))) = set constructor_keys"
    using i by (simp add: on_dom idle_def)
  have "\<And>e' l. eventListeners (snd (on e (Plain (Subscriber k)) s)) e' = Some l \<Longrightarrow> list_all subscriber l"
    using i by (auto simp: on_listeners idle_def split: option.splits if_splits)
  moreover have "\<not> isConnected (snd (on e (Plain (Subscriber k)) s))"
    using i by (simp add: on_def idle_def split: slot.split)
  ultimately show ?thesis using Subscribe d by (simp add: idle_def)
next
  case (Unsubscribe e k)
  assume i: "idle s"
  have d: "dom (eventListeners (snd (off e (Plain (Subscriber k)) s))) = set constructor_keys"
    using i by (simp add: off_dom idle_def)
  have "\<And>e' l. eventListeners (snd (off e (Plain (Subscriber k)) s)) e' = Some l \<Longrightarrow> list_all subscriber l"
    using i by (auto simp: off_listeners idle_def list_all_iff split: option.splits if_splits)
  moreover have "\<not> isConnected (snd (off e (Plain (Subscriber k)) s))"
    using i by (simp add: idle_def)
  ultimately show ?thesis using Unsubscribe d by (simp add: idle_def)
qed

lemma idle_step: "idle s \<Longrightarrow> idle (client_step ev s)"
proof (cases ev)
  case (Receive f)
  assume i: "idle s"
  from idle_handleMessage[OF i] obtain cbs where "handleMessage f s = s\<lparr>invoked := invoked s @ cbs\<rparr>"
    by blast
  then show ?thesis using Receive i by (simp add: idle_def)
next
  case (Timeout t)
  assume "idle s" then show ?thesis using Timeout
    by (simp add: fire_timeout_def idle_def reject_def split: option.split)
next
  case SocketClosed
  assume i: "idle s"
  have i0: "idle (s\<lparr>wsOpen := False, isConnected := False, connectionId := None\<rparr>)"
    using i by (simp add: idle_def)
  from idle_emitEvent[OF i0] obtain cbs where
    "snd (emitEvent ''disconnect'' (empty_message\<lparr>msg_message := Some ''WebSocket connection closed''\<rparr>)
       (s\<lparr>wsOpen := False, isConnected := False, connectionId := None\<rparr>))
     = (s\<lparr>wsOpen := False, isConnected := False, connectionId := None\<rparr>)\<lparr>invoked :=
         invoked (s\<lparr>wsOpen := False, isConnected := False, connectionId := None\<rparr>) @ cbs\<rparr>" by blast
  then show ?thesis using SocketClosed i by (simp add: ws_onclose_def idle_def)
next
  case (Call q)
  assume "idle s" then show ?thesis using Call by (simp add: idle_step_perform)
qed

lemma idle_run: "idle s \<Longrightarrow> idle (client_run es s)"
  by (induction es rule: rev_induct) (simp_all add: client_run_def idle_step)

lemma never_connected: "\<not> isConnected (client_run es constructor)"
  using idle_run[OF idle_constructor, of es] by (simp add: idle_def)

section \<open>The client: requests that no message fulfils\<close>


lemma idle_rejects:
  assumes "idle s"
  shows "uploadFile m p content s = reject (nextId s) not_connected (new_promise s)"
    and "downloadFile p s = reject (nextId s) not_connected (new_promise s)"
  using assms by (simp_all add: uploadFile_def downloadFile_def Let_def idle_def)

lemma connect_fresh:
  "connect c WsOpens constructor = constructor\<lparr>wsOpen := True, nextId := 3,
       timers := [0 \<mapsto> ''Connection timed out''], outbox := [connect_command c]\<rparr>"
  by (simp add: connect_def connect_request_def new_promise_def setTimeout_def once_def on_def
        lookup_listeners_def object_prototype_names_def and_then_def executor_def sendMessage_def
        Let_def constructor_def constructor_listeners_def constructor_keys_def)


text \<open>
  Claim C3 fails on the code.  No run of the client sets \<open>isConnected\<close>, so \<open>uploadFile\<close>
  and \<open>downloadFile\<close> reject with \<open>Not connected to any SFTP server\<close> and send nothing,
  whatever the bytes and the path; so they do after a connect that the bridge accepted.
  Even in a client with \<open>isConnected\<close> set by hand, \<open>downloadFile\<close> sends its command but
  the \<open>file_content\<close> response of the bridge is dropped, since the handler that would
  decode it was registered under a name that is no key, and the request ends by its
  timeout.  And there an ArrayBuffer of more bytes than the engine takes as arguments of
  one call makes \<open>uploadFile\<close> reject with a RangeError and send nothing.
\<close>

theorem transfers_never_start:
  "(\<forall>es. \<not> isConnected (client_run es constructor))
   \<and> (\<forall>es m p content.
         uploadFile m p content (client_run es constructor)
           = reject (nextId (client_run es constructor)) not_connected (new_promise (client_run es constructor))
       \<and> downloadFile p (client_run es constructor)
           = reject (nextId (client_run es constructor)) not_connected (new_promise (client_run es constructor)))
   \<and> settled (uploadFile m ''/f.bin'' (ArrayBufferContent [0, 255, 65])
        (client_run [Call (Connect c WsOpens), Receive (Json bridge_accepts)] constructor))
        = [(3, Rejected (Error ''Not connected to any SFTP server''))]
   \<and> outbox (uploadFile m ''/f.bin'' (ArrayBufferContent [0, 255, 65])
        (client_run [Call (Connect c WsOpens), Receive (Json bridge_accepts)] constructor))
        = [connect_command c]
   \<and> settled (downloadFile ''/f.bin''
        (client_run [Call (Connect c WsOpens), Receive (Json bridge_accepts)] constructor))
        = [(3, Rejected (Error ''Not connected to any SFTP server''))]
   \<and> sent (on_stream_end ''c1'' (Some ''/f.bin'') [[0, 255, 65]] (Some 3) accepted_server)
        = sent accepted_server @ [(''c1'', file_reply)]
   \<and> outbox (downloadFile ''/f.bin'' connected_client)
        = [empty_command\<lparr>cmd_type := Some ''download_file'', cmd_remotePath := Some ''/f.bin''\<rparr>]
   \<and> handleMessage (Json file_reply) (downloadFile ''/f.bin'' connected_client)
        = downloadFile ''/f.bin'' connected_client
   \<and> settled (downloadFile ''/f.bin'' connected_client) = []
   \<and> settled (fire_timeout 0 (handleMessage (Json file_reply) (downloadFile ''/f.bin'' connected_client)))
        = [(0, Rejected (Error ''Download operation timed out''))]
   \<and> settled (uploadFile (length bytes) p (ArrayBufferContent (b # bytes)) connected_client)
        = [(0, Rejected RangeError)]
   \<and> outbox (uploadFile (length bytes) p (ArrayBufferContent (b # bytes)) connected_client) = []"
proof -
  let ?es = "[Call (Connect c WsOpens), Receive (Json bridge_accepts)]"
  have a: "\<forall>es. \<not> isConnected (client_run es constructor)" using never_connected by simp
  have b: "\<forall>es m p content.
         uploadFile m p content (client_run es constructor)
           = reject (nextId (client_run es constructor)) not_connected (new_promise (client_run es constructor))
       \<and> downloadFile p (client_run es constructor)
           = reject (nextId (client_run es constructor)) not_connected (new_promise (client_run es constructor))"
    using idle_rejects[OF idle_run[OF idle_constructor]] by simp
  have hm: "handleMessage (Json bridge_accepts) (connect c WsOpens constructor) = connect c WsOpens constructor"
    unfolding connect_fresh
    by (simp add: handleMessage_def emitEvent_def type_key_def lookup_listeners_def
        bridge_accepts_def empty_message_def constructor_def constructor_listeners_def
        constructor_keys_def object_prototype_names_def)
  have run: "client_run ?es constructor = connect c WsOpens constructor"
    by (simp add: client_run_def hm)
  have c1: "settled (uploadFile m ''/f.bin'' (ArrayBufferContent [0, 255, 65]) (client_run ?es constructor))
        = [(3, Rejected (Error ''Not connected to any SFTP server''))]"
    and c2: "outbox (uploadFile m ''/f.bin'' (ArrayBufferContent [0, 255, 65]) (client_run ?es constructor))
        = [connect_command c]"
    and c3: "settled (downloadFile ''/f.bin'' (client_run ?es constructor))
        = [(3, Rejected (Error ''Not connected to any SFTP server''))]"
    unfolding run connect_fresh
    by (simp_all add: uploadFile_def downloadFile_def Let_def constructor_def new_promise_def
        reject_def not_connected_def)
  have d: "sent (on_stream_end ''c1'' (Some ''/f.bin'') [[0, 255, 65]] (Some 3) accepted_server)
        = sent accepted_server @ [(''c1'', file_reply)]"
  proof -
    have e: "base64_encode [0, 255, 65] = ''AP9B''" by code_simp
    have "concat [[0, 255, 65 :: 8 word]] = [0, 255, 65]" by simp
    then show ?thesis
      by (simp only: on_stream_end_def sendResponse_def buffer_to_base64_def file_reply_def e)
         simp
  qed
  have dl: "downloadFile ''/f.bin'' connected_client =
      constructor\<lparr>wsOpen := True, isConnected := True, nextId := 3,
        eventListeners := (eventListeners constructor)(''error'' \<mapsto>
           [OnceCallback (Suc (Suc 0)) ''error'' (OnError 0 ''Failed to download file'')]),
        timers := [0 \<mapsto> ''Download operation timed out''],
        outbox := [empty_command\<lparr>cmd_type := Some ''download_file'', cmd_remotePath := Some ''/f.bin''\<rparr>]\<rparr>"
    by (simp add: downloadFile_def connected_client_def new_promise_def setTimeout_def once_def on_def
        lookup_listeners_def object_prototype_names_def and_then_def executor_def sendMessage_def
        Let_def constructor_def constructor_listeners_def constructor_keys_def)
  have e1: "outbox (downloadFile ''/f.bin'' connected_client)
        = [empty_command\<lparr>cmd_type := Some ''download_file'', cmd_remotePath := Some ''/f.bin''\<rparr>]"
    and e3: "settled (downloadFile ''/f.bin'' connected_client) = []"
    by (simp_all only: dl) (simp_all add: constructor_def)
  have e2: "handleMessage (Json file_reply) (downloadFile ''/f.bin'' connected_client)
        = downloadFile ''/f.bin'' connected_client"
    unfolding dl
    by (simp add: handleMessage_def emitEvent_def type_key_def lookup_listeners_def
        file_reply_def empty_message_def constructor_def constructor_listeners_def
        constructor_keys_def object_prototype_names_def)
  have e4: "settled (fire_timeout 0 (downloadFile ''/f.bin'' connected_client))
        = [(0, Rejected (Error ''Download operation timed out''))]"
    by (simp only: dl) (simp add: constructor_def fire_timeout_def reject_def)
  have ov: "encode_content (length bytes) (ArrayBufferContent (b # bytes)) = Inl RangeError"
    by (simp add: encode_content_overflow)
  have f1: "settled (uploadFile (length bytes) p (ArrayBufferContent (b # bytes)) connected_client)
        = [(0, Rejected RangeError)]"
    and f2: "outbox (uploadFile (length bytes) p (ArrayBufferContent (b # bytes)) connected_client) = []"
    by (simp_all add: uploadFile_def connected_client_def new_promise_def setTimeout_def once_def on_def
        lookup_listeners_def object_prototype_names_def and_then_def executor_def ov reject_def
        Let_def constructor_def constructor_listeners_def constructor_keys_def)
  from a b c1 c2 c3 d e1 e2 e3 e4 f1 f2 show ?thesis unfolding e2 by (intro conjI)
qed

text \<open>
  In a client with \<open>isConnected\<close> set by hand the handler under \<open>error\<close> is registered,
  and a timeout does not remove it: an \<open>error\<close> message after the timeout calls
  \<open>reject\<close> for the same request a second time.
\<close>

lemma late_error_after_timeout:
  "settled (client_run [Call (ListFiles ''/''), Timeout 0, Receive permission_denied] connected_client)
     = [(0, Rejected (Error ''List files operation timed out'')),
        (0, Rejected (Error ''Permission denied''))]"
  by (simp add: eval_defs fire_timeout_def)

end
